theory Spec2Isabelle
  imports Main "HOL-Library.Multiset"
begin

section \<open>JavaScript values used by server/index.js\<close>

text \<open>
  A JavaScript string is a list of code units (\<open>string\<close>); a value that may be
  \<open>null\<close> or \<open>undefined\<close> is an \<open>option\<close>, \<open>None\<close> standing for both where
  the code only tests truthiness. Timestamps and counters are integers. A message
  timestamp is also compared and subtracted, where \<open>null\<close> counts as 0 and
  \<open>undefined\<close> gives \<open>NaN\<close>, so it keeps the two apart (\<open>js_number\<close>).
\<close>

definition truthy :: "string option \<Rightarrow> bool" where
  "truthy v = (case v of None \<Rightarrow> False | Some s \<Rightarrow> s \<noteq> [])"

definition js_or :: "string option \<Rightarrow> string option \<Rightarrow> string option" where
  "js_or a b = (if truthy a then a else b)"

text \<open>\<open>a || d\<close> with a string default \<open>d\<close>.\<close>

definition js_orStr :: "string option \<Rightarrow> string \<Rightarrow> string" where
  "js_orStr a d = (case a of None \<Rightarrow> d | Some s \<Rightarrow> if s \<noteq> [] then s else d)"

definition truthyNum :: "int option \<Rightarrow> bool" where
  "truthyNum v = (case v of None \<Rightarrow> False | Some n \<Rightarrow> n \<noteq> 0)"

definition js_orNum :: "int option \<Rightarrow> int option \<Rightarrow> int option" where
  "js_orNum a b = (if truthyNum a then a else b)"

definition numOr0 :: "int option \<Rightarrow> int" where
  "numOr0 v = (case v of None \<Rightarrow> 0 | Some n \<Rightarrow> n)"

datatype js_number = NumUndefined | NumNull | Num int

text \<open>A \<open>js_number\<close> where only truthiness is read: \<open>null\<close> and \<open>undefined\<close> fall together.\<close>

definition numOpt :: "js_number \<Rightarrow> int option" where
  "numOpt v = (case v of Num n \<Rightarrow> Some n | _ \<Rightarrow> None)"

text \<open>
  The number a \<open>js_number\<close> is in arithmetic: \<open>null\<close> is 0. For \<open>undefined\<close>
  (\<open>NaN\<close>) the value is never read: every use checks for it first.
\<close>

definition numVal :: "js_number \<Rightarrow> int" where
  "numVal v = (case v of Num n \<Rightarrow> n | _ \<Rightarrow> 0)"

text \<open>
  \<open>msgTime >= startTime\<close>, where \<open>startTime\<close> is \<open>None\<close> when it is \<open>NaN\<close>: false
  when either side is \<open>NaN\<close>, and \<open>null\<close> compares as 0.
\<close>

definition notBefore :: "js_number \<Rightarrow> int option \<Rightarrow> bool" where
  "notBefore msgTime startTime =
     (case startTime of
        None \<Rightarrow> False
      | Some st \<Rightarrow> (case msgTime of NumUndefined \<Rightarrow> False | NumNull \<Rightarrow> st \<le> 0 | Num t \<Rightarrow> st \<le> t))"

text \<open>
  A JavaScript \<open>Map\<close> iterates in insertion order, and \<open>set\<close> on a key that is
  present keeps the key's position: an association list with distinct keys.
\<close>

type_synonym ('k, 'v) jsmap = "('k \<times> 'v) list"

definition map_get :: "('k, 'v) jsmap \<Rightarrow> 'k \<Rightarrow> 'v option" where
  "map_get m k = map_of m k"

definition map_has :: "('k, 'v) jsmap \<Rightarrow> 'k \<Rightarrow> bool" where
  "map_has m k = (map_of m k \<noteq> None)"

fun map_set :: "'k \<Rightarrow> 'v \<Rightarrow> ('k, 'v) jsmap \<Rightarrow> ('k, 'v) jsmap" where
  "map_set k v [] = [(k, v)]"
| "map_set k v (p # ps) = (if fst p = k then (k, v) # ps else p # map_set k v ps)"

definition map_values :: "('k, 'v) jsmap \<Rightarrow> 'v list" where
  "map_values m = map snd m"

definition startsWith :: "string \<Rightarrow> string \<Rightarrow> bool" where
  "startsWith s p = (take (length p) s = p)"

definition endsWith :: "string \<Rightarrow> string \<Rightarrow> bool" where
  "endsWith s p = (length p \<le> length s \<and> drop (length s - length p) s = p)"

text \<open>\<open>s.split(sep)[0]\<close> for a one-character separator.\<close>

definition splitFirst :: "char \<Rightarrow> string \<Rightarrow> string" where
  "splitFirst sep s = takeWhile (\<lambda>c. c \<noteq> sep) s"

text \<open>\<open>s.slice(-n)\<close>: the last \<open>n\<close> code units, the whole string when it is shorter.\<close>

definition sliceLast :: "nat \<Rightarrow> string \<Rightarrow> string" where
  "sliceLast n s = drop (length s - n) s"

section \<open>IdentityResolver: normalizeJid and getPhoneFromJid\<close>

definition isDigit :: "char \<Rightarrow> bool" where
  "isDigit c = (c \<in> set ''0123456789'')"

text \<open>
  \<open>jid.replace(/:[\d]+@/, '@')\<close>: the leftmost \<open>:\<close> that is followed by one or more
  digits and then \<open>@\<close> is removed together with the digits; only the first match is
  replaced (the expression has no \<open>g\<close> flag).
\<close>

fun replaceDevice :: "string \<Rightarrow> string" where
  "replaceDevice [] = []"
| "replaceDevice (c # cs) =
     (if c = CHR '':'' \<and> takeWhile isDigit cs \<noteq> [] \<and>
         (case dropWhile isDigit cs of [] \<Rightarrow> False | d # _ \<Rightarrow> d = CHR ''@'')
      then dropWhile isDigit cs
      else c # replaceDevice cs)"

text \<open>\<open>normalizeJid\<close>: \<open>null\<close> for a falsy argument (\<open>null\<close>, \<open>undefined\<close>, \<open>''\<close>).\<close>

definition normalizeJid :: "string option \<Rightarrow> string option" where
  "normalizeJid jid =
     (if \<not> truthy jid then None
      else (case jid of None \<Rightarrow> None | Some j \<Rightarrow>
        (let normalized = replaceDevice j in
         if CHR ''@'' \<notin> set normalized then Some (normalized @ ''@s.whatsapp.net'')
         else Some normalized)))"

definition getPhoneFromJid :: "string option \<Rightarrow> string" where
  "getPhoneFromJid jid =
     (if \<not> truthy jid then []
      else (case jid of None \<Rightarrow> [] | Some j \<Rightarrow> splitFirst CHR '':'' (splitFirst CHR ''@'' j)))"

text \<open>
  Whether the expression \<open>/:[\d]+@/\<close> matches somewhere in the identifier: the test
  \<open>replaceDevice\<close> makes at each position.
\<close>

fun hasSegment :: "string \<Rightarrow> bool" where
  "hasSegment [] = False"
| "hasSegment (c # cs) =
     ((c = CHR '':'' \<and> takeWhile isDigit cs \<noteq> [] \<and>
       (case dropWhile isDigit cs of [] \<Rightarrow> False | d # _ \<Rightarrow> d = CHR ''@'')) \<or>
      hasSegment cs)"

section \<open>Data model\<close>

text \<open>An entry of \<open>account.contacts\<close>: the object literals the handlers store.\<close>

record contact =
  c_name :: "string option"
  c_notify :: "string option"
  c_verifiedName :: "string option"

text \<open>A contact record of a \<open>contacts.upsert\<close> or \<open>contacts.update\<close> payload.\<close>

record wa_contact =
  wc_id :: string
  wc_name :: "string option"
  wc_notify :: "string option"
  wc_verifiedName :: "string option"

record image_message =
  im_caption :: "string option"
  im_mimetype :: "string option"

text \<open>
  The fields of \<open>msg.message\<close> that \<open>formatMessage\<close> reads. For a video the caption,
  for an audio the mimetype and for a document the file name are kept; the outer
  \<open>option\<close> says whether the sub-message is present.
\<close>

record wa_content =
  conversation :: "string option"
  extendedText :: "string option"
  imageMessage :: "image_message option"
  videoMessage :: "string option option"
  audioMessage :: "string option option"
  documentMessage :: "string option option"
  stickerMessage :: bool

text \<open>A gateway message: \<open>msg.key.remoteJid\<close>, \<open>msg.key.fromMe\<close>, \<open>msg.key.id\<close> and the rest.\<close>

record wa_message =
  remoteJid :: string
  fromMe :: bool
  msgId :: string
  pushName :: "string option"
  messageTimestamp :: js_number
  content :: "wa_content option"

record formatted_message =
  fm_id :: string
  fm_fromMe :: bool
  fm_text :: string
  fm_type :: string
  fm_mediaData :: "string option"
  fm_mediaMimetype :: "string option"
  fm_timestamp :: js_number
  fm_pushName :: "string option"

record chat =
  chat_id :: string
  chat_name :: "string option"
  conversationTimestamp :: "int option"
  unreadCount :: "int option"
  lastMessage :: "formatted_message option"
  timestamp :: "int option"

text \<open>
  A partial chat record of \<open>chats.update\<close>: for each field, \<open>None\<close> when the update
  does not carry the property, \<open>Some v\<close> when it does (\<open>v\<close> itself may be absent).
\<close>

record chat_update =
  cu_id :: string
  cu_name :: "string option option"
  cu_conversationTimestamp :: "int option option"
  cu_unreadCount :: "int option option"
  cu_lastMessage :: "formatted_message option option"
  cu_timestamp :: "int option option"

record formatted_chat =
  fc_id :: string
  fc_name :: "string option"
  fc_profilePic :: "string option"
  fc_lastMessage :: "formatted_message option"
  fc_timestamp :: "int option"
  fc_unreadCount :: int

datatype outgoing =
    OutText "string option"
  | OutImage string string string
  | OutAudio string string bool
  | OutDocument string string string

text \<open>
  The protocol session (\<open>account.sock\<close>) is outside the repository: its calls are
  functions of the request. \<open>None\<close> is a call that throws.
\<close>

record gateway =
  groupMetadata :: "string \<Rightarrow> string option"
  profilePictureUrl :: "string \<Rightarrow> string option option"
  storeContacts :: "(string \<Rightarrow> contact option) option"
  sendMessage :: "string \<Rightarrow> outgoing \<Rightarrow> wa_message option option"
  userId :: "string option"
  groupFetchAllParticipating :: bool

text \<open>
  The other library calls: media download, the ffmpeg transcoder, the QR renderer; and
  \<open>engineSort\<close>, the order the JavaScript engine gives a message list under the
  comparator \<open>(a, b) => a.timestamp - b.timestamp\<close> when it returns \<open>NaN\<close> (the
  language leaves that order to the engine).
\<close>

record externals =
  downloadMediaMessage :: "wa_message \<Rightarrow> string option"
  convertAudioToOgg :: "string \<Rightarrow> string \<Rightarrow> string option"
  toDataURL :: "string \<Rightarrow> string"
  engineSort :: "formatted_message list \<Rightarrow> formatted_message list"

datatype connection_state = Disconnected | Qr | Connected

record account =
  acc_id :: string
  acc_name :: string
  sock :: "gateway option"
  connectionState :: connection_state
  qrCodeData :: "string option"
  chats :: "(string, chat) jsmap"
  messages :: "(string, wa_message list) jsmap"
  contacts :: "(string option, contact) jsmap"
  profilePics :: "(string, string option) jsmap"
  pushNames :: "(string option, string) jsmap"
  phoneNumber :: "string option"

record account_json =
  aj_id :: string
  aj_name :: string
  aj_connectionState :: connection_state
  aj_phoneNumber :: "string option"

datatype status_message = Escaneie_o_QR_Code | Desconectado | Conectado

datatype error_message =
    Conta_nao_conectada
  | Erro_ao_enviar_mensagem
  | Erro_ao_carregar_mensagens
  | Erro_ao_carregar_historico

datatype event =
    Account_qr string string
  | Account_status string connection_state status_message
  | Accounts_update "account_json list"
  | Chats_update string "formatted_chat list"
  | New_message string string formatted_message "string option" "string option"
  | Message_sent string string formatted_message
  | Messages string string "string option" "string option" "formatted_message list"
  | History string string "formatted_message list" nat
  | Error error_message

text \<open>\<open>io.emit\<close> reaches every observer, \<open>socket.emit\<close> the requesting one.\<close>

datatype target = Io | Socket

type_synonym emit = "target \<times> event"

definition isChatsUpdate :: "emit \<Rightarrow> bool" where
  "isChatsUpdate e = (case e of (Io, Chats_update _ _) \<Rightarrow> True | _ \<Rightarrow> False)"

section \<open>ProfilePictureCache and name resolution\<close>

text \<open>
  \<open>getProfilePicture\<close>: the cached value when the key is present (a cached
  \<open>null\<close> included); otherwise one gateway call, whose result (or \<open>null\<close> when it
  throws, also because \<open>account.sock\<close> is \<open>null\<close>) is cached.
\<close>

definition getProfilePicture :: "account \<Rightarrow> string \<Rightarrow> string option \<times> account" where
  "getProfilePicture a jid =
     (if map_has (profilePics a) jid
      then (case map_get (profilePics a) jid of Some v \<Rightarrow> (v, a) | None \<Rightarrow> (None, a))
      else (case sock a of
              None \<Rightarrow> (None, a\<lparr>profilePics := map_set jid None (profilePics a)\<rparr>)
            | Some g \<Rightarrow>
               (case profilePictureUrl g jid of
                  None \<Rightarrow> (None, a\<lparr>profilePics := map_set jid None (profilePics a)\<rparr>)
                | Some url \<Rightarrow> (url, a\<lparr>profilePics := map_set jid url (profilePics a)\<rparr>))))"

text \<open>\<open>c.name || c.notify || c.verifiedName\<close>.\<close>

definition contactName :: "contact \<Rightarrow> string option" where
  "contactName c = js_or (js_or (c_name c) (c_notify c)) (c_verifiedName c)"

text \<open>
  The loop over \<open>account.contacts.entries()\<close>: every entry whose key has the target's
  phone number assigns \<open>name\<close>; the loop breaks at the first truthy one.
\<close>

fun scanContacts :: "string \<Rightarrow> (string option, contact) jsmap \<Rightarrow> string option \<Rightarrow> string option" where
  "scanContacts phone [] nm = nm"
| "scanContacts phone ((k, v) # es) nm =
     (if getPhoneFromJid k = phone
      then (let n = contactName v in
            if truthy n then n else scanContacts phone es n)
      else scanContacts phone es nm)"

text \<open>A property key of a plain object is a string: \<open>null\<close> reads the property \<open>"null"\<close>.\<close>

definition propertyKey :: "string option \<Rightarrow> string" where
  "propertyKey k = (case k of None \<Rightarrow> ''null'' | Some s \<Rightarrow> s)"

text \<open>
  The part of \<open>getContactInfo\<close> before the fallback: the value of \<open>name\<close> after the
  exact directory match, the phone-number scan, the push-name table and
  \<open>account.sock?.store?.contacts\<close>.
\<close>

definition lookupName :: "account \<Rightarrow> string \<Rightarrow> string option" where
  "lookupName a jid =
     (let normalizedJid = normalizeJid (Some jid);
          phoneNumber = getPhoneFromJid (Some jid);
          contact = (case map_get (contacts a) normalizedJid of
                       Some c \<Rightarrow> Some c
                     | None \<Rightarrow> map_get (contacts a) (Some jid));
          name1 = (case contact of Some c \<Rightarrow> contactName c | None \<Rightarrow> None);
          name2 = (if \<not> truthy name1 then scanContacts phoneNumber (contacts a) name1 else name1);
          name3 = (if \<not> truthy name2
                   then js_or (js_or (map_get (pushNames a) normalizedJid)
                                     (map_get (pushNames a) (Some jid)))
                              (map_get (pushNames a) (Some phoneNumber))
                   else name2)
      in if \<not> truthy name3
         then (case sock a of
                 None \<Rightarrow> name3
               | Some g \<Rightarrow>
                  (case storeContacts g of
                     None \<Rightarrow> name3
                   | Some sc \<Rightarrow>
                      (case (case sc jid of Some c \<Rightarrow> Some c
                                          | None \<Rightarrow> sc (propertyKey normalizedJid)) of
                         None \<Rightarrow> name3
                       | Some c \<Rightarrow> contactName c)))
         else name3)"

text \<open>The formatting of an ordinary number (the last \<open>else\<close> of the fallback).\<close>

definition formatNumber :: "string \<Rightarrow> string" where
  "formatNumber number =
     (if startsWith number ''55'' \<and> length number \<ge> 12
      then (let ddd = take 2 (drop 2 number);
                rest = drop 4 number
            in if length rest = 9
               then ''('' @ ddd @ '') '' @ take 5 rest @ ''-'' @ drop 5 rest
               else if length rest = 8
               then ''('' @ ddd @ '') '' @ take 4 rest @ ''-'' @ drop 4 rest
               else ''+'' @ number)
      else ''+'' @ number)"

text \<open>
  The fallback (\<open>if (!name) { ... }\<close>): a group asks the gateway and caches the subject
  in the directory; when the call throws the id before \<open>@\<close> is used.
\<close>

definition fallbackName :: "account \<Rightarrow> string \<Rightarrow> string \<times> account" where
  "fallbackName a jid =
     (if endsWith jid ''@g.us''
      then (case sock a of
              None \<Rightarrow> (splitFirst CHR ''@'' jid, a)
            | Some g \<Rightarrow>
               (case groupMetadata g jid of
                  None \<Rightarrow> (splitFirst CHR ''@'' jid, a)
                | Some subject \<Rightarrow>
                   (subject,
                    a\<lparr>contacts := map_set (Some jid)
                         \<lparr>c_name = Some subject, c_notify = Some subject, c_verifiedName = None\<rparr>
                         (contacts a)\<rparr>)))
      else if endsWith jid ''@lid''
      then (''Canal '' @ sliceLast 6 (splitFirst CHR ''@'' jid), a)
      else if endsWith jid ''@newsletter''
      then (''Newsletter'', a)
      else (formatNumber (getPhoneFromJid (Some jid)), a))"

text \<open>\<open>getContactInfo\<close> returns \<open>{ name, profilePic }\<close> and the account as it left it.\<close>

definition getContactInfo :: "account \<Rightarrow> string \<Rightarrow> (string option \<times> string option) \<times> account" where
  "getContactInfo a jid =
     (let name = lookupName a jid;
          (name', a1) = (if \<not> truthy name
                         then (let (n, a') = fallbackName a jid in (Some n, a'))
                         else (name, a));
          (profilePic, a2) = getProfilePicture a1 jid
      in ((name', profilePic), a2))"

section \<open>SnapshotFormatter and ChatStore\<close>

definition unsupportedText :: string where
  "unsupportedText = ''[Mensagem n'' @ [CHR 0xE3] @ ''o suportada]''"

definition downloadBase64 :: "externals \<Rightarrow> wa_message \<Rightarrow> bool \<Rightarrow> string option" where
  "downloadBase64 x msg downloadMedia =
     (if downloadMedia then downloadMediaMessage x msg else None)"

definition formatMessage :: "externals \<Rightarrow> wa_message \<Rightarrow> bool \<Rightarrow> formatted_message" where
  "formatMessage x msg downloadMedia =
     (let c = content msg;
          base = \<lparr>fm_id = msgId msg, fm_fromMe = fromMe msg, fm_text = [], fm_type = ''text'',
                  fm_mediaData = None, fm_mediaMimetype = None,
                  fm_timestamp = messageTimestamp msg, fm_pushName = pushName msg\<rparr>
      in case c of
           None \<Rightarrow> base\<lparr>fm_text := unsupportedText\<rparr>
         | Some ct \<Rightarrow>
            (if truthy (conversation ct) then base\<lparr>fm_text := js_orStr (conversation ct) []\<rparr>
             else if truthy (extendedText ct) then base\<lparr>fm_text := js_orStr (extendedText ct) []\<rparr>
             else (case imageMessage ct of
               Some im \<Rightarrow> base\<lparr>fm_text := js_orStr (im_caption im) [],
                                fm_type := ''image'', fm_mediaMimetype := im_mimetype im,
                                fm_mediaData := downloadBase64 x msg downloadMedia\<rparr>
             | None \<Rightarrow> (case videoMessage ct of
               Some caption \<Rightarrow> base\<lparr>fm_text := js_orStr caption [],
                                     fm_type := ''video''\<rparr>
             | None \<Rightarrow> (case audioMessage ct of
               Some mimetype \<Rightarrow> base\<lparr>fm_type := ''audio'', fm_mediaMimetype := mimetype,
                                      fm_mediaData := downloadBase64 x msg downloadMedia\<rparr>
             | None \<Rightarrow> (case documentMessage ct of
               Some fileName \<Rightarrow> base\<lparr>fm_text := js_orStr fileName ''Documento'',
                                      fm_type := ''document''\<rparr>
             | None \<Rightarrow> (if stickerMessage ct then base\<lparr>fm_type := ''sticker''\<rparr>
                        else base\<lparr>fm_text := unsupportedText\<rparr>)))))))"

text \<open>
  The loop of \<open>getFormattedChats\<close>: a chat with neither \<open>lastMessage\<close> nor a truthy
  \<open>conversationTimestamp\<close> is skipped; the others are resolved and pushed.
\<close>

fun formatChats :: "account \<Rightarrow> chat list \<Rightarrow> formatted_chat list \<Rightarrow> formatted_chat list \<times> account" where
  "formatChats a [] formatted = (formatted, a)"
| "formatChats a (c # cs) formatted =
     (if lastMessage c = None \<and> \<not> truthyNum (conversationTimestamp c)
      then formatChats a cs formatted
      else (let (contactInfo, a') = getContactInfo a (chat_id c) in
            formatChats a' cs
              (formatted @
               [\<lparr>fc_id = chat_id c, fc_name = fst contactInfo, fc_profilePic = snd contactInfo,
                 fc_lastMessage = lastMessage c,
                 fc_timestamp = js_orNum (timestamp c) (conversationTimestamp c),
                 fc_unreadCount = numOr0 (unreadCount c)\<rparr>])))"

text \<open>
  \<open>sort((a, b) => (b.timestamp || 0) - (a.timestamp || 0))\<close> is a stable sort by
  descending key; \<open>slice(0, 50)\<close> keeps the first 50.
\<close>

definition sortKey :: "formatted_chat \<Rightarrow> int" where
  "sortKey c = numOr0 (fc_timestamp c)"

definition getFormattedChats :: "account \<Rightarrow> formatted_chat list \<times> account" where
  "getFormattedChats a =
     (let chatArray = map_values (chats a);
          (formatted, a') = formatChats a chatArray []
      in (take 50 (sort_key (\<lambda>c. - sortKey c) formatted), a'))"

text \<open>\<open>io.emit('chats-update', { accountId, chats: await getFormattedChats(account) })\<close>.\<close>

definition broadcastChats :: "account \<Rightarrow> emit list \<times> account" where
  "broadcastChats a =
     (let (formattedChats, a') = getFormattedChats a
      in ([(Io, Chats_update (acc_id a) formattedChats)], a'))"

definition updateChatInList :: "externals \<Rightarrow> account \<Rightarrow> string \<Rightarrow> wa_message \<Rightarrow> emit list \<times> account" where
  "updateChatInList x a jid msg =
     (let existing = (case map_get (chats a) jid of
                        Some c \<Rightarrow> c
                      | None \<Rightarrow> \<lparr>chat_id = jid, chat_name = None, conversationTimestamp = None,
                                  unreadCount = Some 0, lastMessage = None, timestamp = None\<rparr>);
          e1 = existing\<lparr>lastMessage := Some (formatMessage x msg False),
                        timestamp := numOpt (messageTimestamp msg)\<rparr>;
          e2 = (if \<not> fromMe msg then e1\<lparr>unreadCount := Some (numOr0 (unreadCount e1) + 1)\<rparr> else e1)
      in broadcastChats (a\<lparr>chats := map_set jid e2 (chats a)\<rparr>))"

section \<open>EventReconciler: the gateway event handlers of connectAccount\<close>

text \<open>
  Each handler runs to completion on the account it closes over and returns what it
  emitted, in order, with the account as it left it.
\<close>

definition emptyContact :: contact where
  "emptyContact = \<lparr>c_name = None, c_notify = None, c_verifiedName = None\<rparr>"

definition namedContact :: "string \<Rightarrow> contact" where
  "namedContact n = \<lparr>c_name = Some n, c_notify = Some n, c_verifiedName = None\<rparr>"

text \<open>The body of the loop of \<open>contacts.upsert\<close>.\<close>

definition upsertContact :: "account \<Rightarrow> wa_contact \<Rightarrow> account" where
  "upsertContact a c =
     (let name = js_or (js_or (wc_name c) (wc_notify c)) (wc_verifiedName c);
          normalizedId = normalizeJid (Some (wc_id c));
          phone = getPhoneFromJid (Some (wc_id c));
          contactData = \<lparr>c_name = js_or name None, c_notify = wc_notify c,
                         c_verifiedName = wc_verifiedName c\<rparr>
      in if truthy name
         then (case name of
                 None \<Rightarrow> a
               | Some n \<Rightarrow>
                  a\<lparr>contacts := map_set normalizedId contactData
                                   (map_set (Some (wc_id c)) contactData (contacts a)),
                    pushNames := map_set (Some phone) n (map_set normalizedId n (pushNames a))\<rparr>)
         else a)"

definition on_contacts_upsert :: "account \<Rightarrow> wa_contact list \<Rightarrow> emit list \<times> account" where
  "on_contacts_upsert a newContacts =
     (let a1 = foldl upsertContact a newContacts
      in if connectionState a1 = Connected then broadcastChats a1 else ([], a1))"

text \<open>The body of the loop of \<open>contacts.update\<close>.\<close>

definition updateContact :: "account \<Rightarrow> wa_contact \<Rightarrow> account" where
  "updateContact a upd =
     (let existing = (case map_get (contacts a) (Some (wc_id upd)) of
                        Some c \<Rightarrow> c | None \<Rightarrow> emptyContact);
          name = js_or (js_or (wc_name upd) (wc_notify upd)) (c_name existing)
      in if truthy name
         then a\<lparr>contacts := map_set (Some (wc_id upd))
                   (existing\<lparr>c_name := name, c_notify := js_or (wc_notify upd) (c_notify existing)\<rparr>)
                   (contacts a)\<rparr>
         else a)"

definition on_contacts_update :: "account \<Rightarrow> wa_contact list \<Rightarrow> emit list \<times> account" where
  "on_contacts_update a updates =
     (let a1 = foldl updateContact a updates
      in if connectionState a1 = Connected then broadcastChats a1 else ([], a1))"

text \<open>
  The dedup'd append of \<open>messages.upsert\<close> and \<open>messaging-history.set\<close> (the same five
  lines in both): the chat's array is created when missing, and the message is pushed
  unless \<open>existing.find(m => m.key.id === msg.key.id)\<close> finds one.
\<close>

definition appendMessage :: "account \<Rightarrow> wa_message \<Rightarrow> account" where
  "appendMessage a msg =
     (let jid = remoteJid msg;
          ms0 = (if \<not> map_has (messages a) jid then map_set jid [] (messages a) else messages a);
          existing = (case map_get ms0 jid of Some l \<Rightarrow> l | None \<Rightarrow> [])
      in if find (\<lambda>m. msgId m = msgId msg) existing = None
         then a\<lparr>messages := map_set jid (existing @ [msg]) ms0\<rparr>
         else a\<lparr>messages := ms0\<rparr>)"

datatype upsert_type = Notify | Append

text \<open>The push-name block of \<open>messages.upsert\<close>.\<close>

definition learnPushName :: "account \<Rightarrow> wa_message \<Rightarrow> account" where
  "learnPushName a msg =
     (if truthy (pushName msg) \<and> \<not> fromMe msg
      then (case pushName msg of
              None \<Rightarrow> a
            | Some pn \<Rightarrow>
               (let normalizedJid = normalizeJid (Some (remoteJid msg));
                    phone = getPhoneFromJid (Some (remoteJid msg))
                in a\<lparr>pushNames := map_set (Some phone) pn (map_set normalizedJid pn (pushNames a)),
                     contacts := (if \<not> map_has (contacts a) normalizedJid
                                  then map_set normalizedJid (namedContact pn) (contacts a)
                                  else contacts a)\<rparr>))
      else a)"

text \<open>The body of the loop of \<open>messages.upsert\<close>, with the emits so far.\<close>

definition upsertMessage :: "externals \<Rightarrow> upsert_type \<Rightarrow> emit list \<times> account \<Rightarrow> wa_message \<Rightarrow> emit list \<times> account" where
  "upsertMessage x ty st msg =
     (let jid = remoteJid msg;
          a2 = appendMessage (learnPushName (snd st) msg) msg
      in if \<not> fromMe msg \<and> ty = Notify
         then (let (contactInfo, a3) = getContactInfo a2 jid;
                   e = (Io, New_message (acc_id a2) jid (formatMessage x msg True)
                              (fst contactInfo) (snd contactInfo));
                   (es, a4) = updateChatInList x a3 jid msg
               in (fst st @ e # es, a4))
         else (fst st, a2))"

definition on_messages_upsert :: "externals \<Rightarrow> account \<Rightarrow> wa_message list \<Rightarrow> upsert_type \<Rightarrow> emit list \<times> account" where
  "on_messages_upsert x a newMessages ty = foldl (upsertMessage x ty) ([], a) newMessages"

definition on_chats_upsert :: "account \<Rightarrow> chat list \<Rightarrow> emit list \<times> account" where
  "on_chats_upsert a newChats =
     broadcastChats (a\<lparr>chats := foldl (\<lambda>m c. map_set (chat_id c) c m) (chats a) newChats\<rparr>)"

text \<open>\<open>Object.assign(chat, update)\<close>: every property the update carries overwrites.\<close>

definition assignField :: "'a option \<Rightarrow> 'a \<Rightarrow> 'a" where
  "assignField u old = (case u of None \<Rightarrow> old | Some v \<Rightarrow> v)"

definition assignChat :: "chat \<Rightarrow> chat_update \<Rightarrow> chat" where
  "assignChat c u =
     \<lparr>chat_id = cu_id u,
      chat_name = assignField (cu_name u) (chat_name c),
      conversationTimestamp = assignField (cu_conversationTimestamp u) (conversationTimestamp c),
      unreadCount = assignField (cu_unreadCount u) (unreadCount c),
      lastMessage = assignField (cu_lastMessage u) (lastMessage c),
      timestamp = assignField (cu_timestamp u) (timestamp c)\<rparr>"

definition applyChatUpdate :: "(string, chat) jsmap \<Rightarrow> chat_update \<Rightarrow> (string, chat) jsmap" where
  "applyChatUpdate m u =
     (case map_get m (cu_id u) of
        Some c \<Rightarrow> map_set (cu_id u) (assignChat c u) m
      | None \<Rightarrow> m)"

definition on_chats_update :: "account \<Rightarrow> chat_update list \<Rightarrow> emit list \<times> account" where
  "on_chats_update a updates = broadcastChats (a\<lparr>chats := foldl applyChatUpdate (chats a) updates\<rparr>)"

text \<open>The two loops of \<open>messaging-history.set\<close>.\<close>

definition historyChat :: "account \<Rightarrow> chat \<Rightarrow> account" where
  "historyChat a c =
     (let a1 = a\<lparr>chats := map_set (chat_id c) c (chats a)\<rparr>
      in if truthy (chat_name c)
         then (case chat_name c of
                 None \<Rightarrow> a1
               | Some n \<Rightarrow>
                  (let normalizedJid = normalizeJid (Some (chat_id c));
                       phone = getPhoneFromJid (Some (chat_id c))
                   in a1\<lparr>contacts := map_set normalizedJid (namedContact n)
                                        (map_set (Some (chat_id c)) (namedContact n) (contacts a1)),
                         pushNames := map_set (Some phone) n
                                        (map_set normalizedJid n (pushNames a1))\<rparr>))
         else a1)"

definition historyMessage :: "account \<Rightarrow> wa_message \<Rightarrow> account" where
  "historyMessage a msg =
     (let jid = remoteJid msg;
          a1 = (if truthy (pushName msg) \<and> \<not> fromMe msg
                then (case pushName msg of
                        None \<Rightarrow> a
                      | Some pn \<Rightarrow>
                         (let normalizedJid = normalizeJid (Some jid);
                              phone = getPhoneFromJid (Some jid)
                          in a\<lparr>pushNames := map_set (Some jid) pn
                                               (map_set (Some phone) pn
                                                 (map_set normalizedJid pn (pushNames a))),
                               contacts :=
                                 (if (case map_get (contacts a) normalizedJid of
                                        None \<Rightarrow> True
                                      | Some c \<Rightarrow> \<not> truthy (c_name c))
                                  then map_set (Some jid) (namedContact pn)
                                         (map_set normalizedJid (namedContact pn) (contacts a))
                                  else contacts a)\<rparr>))
                else a)
      in appendMessage a1 msg)"

definition on_history_set :: "account \<Rightarrow> chat list \<Rightarrow> wa_message list \<Rightarrow> emit list \<times> account" where
  "on_history_set a syncedChats syncedMessages =
     broadcastChats (foldl historyMessage (foldl historyChat a syncedChats) syncedMessages)"

section \<open>AccountRegistry: the account map, the durable record and the credential folders\<close>

record saved_account =
  sa_id :: string
  sa_name :: string
  sa_phoneNumber :: "string option"

text \<open>
  \<open>accountsFile\<close> is the content of accounts.json (\<open>None\<close>: no file yet),
  \<open>authFolders\<close> the credential directories that exist, by account id, with their
  files, and \<open>pendingReconnects\<close> the reconnection timers set by \<open>setTimeout\<close>.
\<close>

record world =
  accounts :: "(string, account) jsmap"
  accountsFile :: "saved_account list option"
  authFolders :: "(string, string list) jsmap"
  pendingReconnects :: "string list"

definition toJSON :: "account \<Rightarrow> account_json" where
  "toJSON a = \<lparr>aj_id = acc_id a, aj_name = acc_name a,
               aj_connectionState = connectionState a, aj_phoneNumber = phoneNumber a\<rparr>"

definition getAccountsList :: "world \<Rightarrow> account_json list" where
  "getAccountsList w = map toJSON (map_values (accounts w))"

definition saveAccountsToFile :: "world \<Rightarrow> world" where
  "saveAccountsToFile w =
     w\<lparr>accountsFile :=
         Some (map (\<lambda>a. \<lparr>sa_id = acc_id a, sa_name = acc_name a, sa_phoneNumber = phoneNumber a\<rparr>)
                   (map_values (accounts w)))\<rparr>"

text \<open>\<open>fs.rmSync(folder, { recursive, force })\<close> followed by \<open>fs.mkdirSync(folder)\<close>.\<close>

definition purgeAuthFolder :: "string \<Rightarrow> world \<Rightarrow> world" where
  "purgeAuthFolder accountId w = w\<lparr>authFolders := map_set accountId [] (authFolders w)\<rparr>"

datatype connection = Close | Open | Connecting

record connection_update =
  up_connection :: "connection option"
  up_statusCode :: "int option"
  up_qr :: "string option"

text \<open>
  The \<open>close\<close> branch of \<open>connection.update\<close>. \<open>loggedOut\<close> is the gateway library's
  \<open>DisconnectReason.loggedOut\<close>; \<open>statusCode\<close> is
  \<open>lastDisconnect?.error?.output?.statusCode\<close>.
\<close>

definition connectionClose :: "int \<Rightarrow> world \<Rightarrow> string \<Rightarrow> account \<Rightarrow> int option \<Rightarrow> emit list \<times> world" where
  "connectionClose loggedOut w accountId a statusCode =
     (let shouldReconnect = (statusCode \<noteq> Some loggedOut);
          a1 = a\<lparr>connectionState := Disconnected\<rparr>;
          w1 = w\<lparr>accounts := map_set accountId a1 (accounts w)\<rparr>;
          es = [(Io, Account_status accountId Disconnected Desconectado),
                (Io, Accounts_update (getAccountsList w1))]
      in if shouldReconnect
         then (es, w1\<lparr>pendingReconnects := pendingReconnects w1 @ [accountId]\<rparr>)
         else (es, saveAccountsToFile
                     ((purgeAuthFolder accountId w1)
                        \<lparr>accounts := map_set accountId (a1\<lparr>phoneNumber := None\<rparr>) (accounts w1)\<rparr>)))"

text \<open>The \<open>open\<close> branch, with \<open>loadChatsForAccount\<close> run to its end.\<close>

definition connectionOpen :: "world \<Rightarrow> string \<Rightarrow> account \<Rightarrow> emit list \<times> world" where
  "connectionOpen w accountId a =
     (let a1 = a\<lparr>connectionState := Connected, qrCodeData := None\<rparr>;
          uid = (case sock a of None \<Rightarrow> None | Some g \<Rightarrow> userId g);
          a2 = (if truthy uid then a1\<lparr>phoneNumber := Some (getPhoneFromJid uid)\<rparr> else a1);
          w1 = w\<lparr>accounts := map_set accountId a2 (accounts w)\<rparr>;
          w2 = (if truthy uid then saveAccountsToFile w1 else w1);
          es = [(Io, Account_status accountId Connected Conectado),
                (Io, Accounts_update (getAccountsList w2))];
          (es2, a3) = (case sock a2 of
                         None \<Rightarrow> ([], a2)
                       | Some g \<Rightarrow> if groupFetchAllParticipating g then broadcastChats a2
                                   else ([], a2))
      in (es @ es2, w2\<lparr>accounts := map_set accountId a3 (accounts w2)\<rparr>))"

text \<open>
  \<open>connection.update\<close> for the account registered under \<open>accountId\<close> (the account
  the handler closes over).
\<close>

definition on_connection_update :: "int \<Rightarrow> externals \<Rightarrow> world \<Rightarrow> string \<Rightarrow> connection_update \<Rightarrow> emit list \<times> world" where
  "on_connection_update loggedOut x w accountId upd =
     (case map_get (accounts w) accountId of
        None \<Rightarrow> ([], w)
      | Some a \<Rightarrow>
         (let (es1, a1) =
                (if truthy (up_qr upd)
                 then (let d = toDataURL x (js_orStr (up_qr upd) [])
                       in ([(Io, Account_qr accountId d),
                            (Io, Account_status accountId Qr Escaneie_o_QR_Code)],
                           a\<lparr>qrCodeData := Some d, connectionState := Qr\<rparr>))
                 else ([], a));
              (es2, w2) =
                (if up_connection upd = Some Close
                 then connectionClose loggedOut w accountId a1 (up_statusCode upd)
                 else if up_connection upd = Some Open
                 then connectionOpen w accountId a1
                 else ([], w\<lparr>accounts := map_set accountId a1 (accounts w)\<rparr>))
          in (es1 @ es2, w2)))"

section \<open>The observers' commands\<close>

text \<open>\<open>logout-account\<close>: nothing happens without an account that has a socket.\<close>

definition on_logout_account :: "world \<Rightarrow> string \<Rightarrow> emit list \<times> world" where
  "on_logout_account w accountId =
     (case map_get (accounts w) accountId of
        None \<Rightarrow> ([], w)
      | Some a \<Rightarrow>
         (case sock a of
            None \<Rightarrow> ([], w)
          | Some g \<Rightarrow>
             (let a1 = a\<lparr>sock := None, connectionState := Disconnected, chats := [],
                         messages := [], contacts := [], profilePics := [],
                         phoneNumber := None\<rparr>;
                  w1 = w\<lparr>accounts := map_set accountId a1 (accounts w)\<rparr>;
                  w2 = (if map_has (authFolders w1) accountId
                        then purgeAuthFolder accountId w1 else w1);
                  w3 = saveAccountsToFile w2
              in ([(Io, Accounts_update (getAccountsList w3)),
                   (Io, Account_status accountId Disconnected Desconectado)], w3))))"

text \<open>
  The message \<open>send-message\<close> hands to the gateway. The outer \<open>None\<close> is a rejected
  transcoding, \<open>Some None\<close> a type none of the branches takes.
\<close>

definition buildOutgoing :: "externals \<Rightarrow> string option \<Rightarrow> string option \<Rightarrow> string option \<Rightarrow> string option \<Rightarrow> string option \<Rightarrow> outgoing option option" where
  "buildOutgoing x txt ty media fileName mimetype =
     (if ty = Some ''text'' \<or> \<not> truthy ty then Some (Some (OutText txt))
      else if ty = Some ''image'' \<and> truthy media
      then Some (Some (OutImage (js_orStr media []) (js_orStr mimetype ''image/jpeg'') (js_orStr txt [])))
      else if ty = Some ''audio'' \<and> truthy media
      then (case convertAudioToOgg x (js_orStr media []) (js_orStr mimetype ''audio/webm'') of
              None \<Rightarrow> None
            | Some converted \<Rightarrow> Some (Some (OutAudio converted ''audio/ogg; codecs=opus'' True)))
      else if ty = Some ''document'' \<and> truthy media
      then Some (Some (OutDocument (js_orStr media []) (js_orStr mimetype ''application/octet-stream'')
                         (js_orStr fileName ''documento'')))
      else Some None)"

text \<open>
  The \<open>if (sent) { ... }\<close> block of \<open>send-message\<close>: the sent message is pushed onto
  the chat's array, acknowledged, and folded into the chat list.
\<close>

definition recordSent :: "externals \<Rightarrow> string \<Rightarrow> account \<Rightarrow> string \<Rightarrow> wa_message \<Rightarrow> emit list \<times> account" where
  "recordSent x accountId a jid sent =
     (let ms0 = (if \<not> map_has (messages a) jid then map_set jid [] (messages a) else messages a);
          existing = (case map_get ms0 jid of Some l \<Rightarrow> l | None \<Rightarrow> []);
          a1 = a\<lparr>messages := map_set jid (existing @ [sent]) ms0\<rparr>;
          e = (Socket, Message_sent accountId jid (formatMessage x sent False));
          (es, a2) = updateChatInList x a1 jid sent
      in (e # es, a2))"

definition on_send_message :: "externals \<Rightarrow> world \<Rightarrow> string \<Rightarrow> string \<Rightarrow> string option \<Rightarrow> string option \<Rightarrow> string option \<Rightarrow> string option \<Rightarrow> string option \<Rightarrow> emit list \<times> world" where
  "on_send_message x w accountId jid txt ty media fileName mimetype =
     (case map_get (accounts w) accountId of
        None \<Rightarrow> ([(Socket, Error Conta_nao_conectada)], w)
      | Some a \<Rightarrow>
         if connectionState a \<noteq> Connected then ([(Socket, Error Conta_nao_conectada)], w)
         else (case buildOutgoing x txt ty media fileName mimetype of
                 None \<Rightarrow> ([(Socket, Error Erro_ao_enviar_mensagem)], w)
               | Some None \<Rightarrow> ([], w)
               | Some (Some out) \<Rightarrow>
                  (case sock a of
                     None \<Rightarrow> ([(Socket, Error Erro_ao_enviar_mensagem)], w)
                   | Some g \<Rightarrow>
                      (case sendMessage g jid out of
                         None \<Rightarrow> ([(Socket, Error Erro_ao_enviar_mensagem)], w)
                       | Some None \<Rightarrow> ([], w)
                       | Some (Some sent) \<Rightarrow>
                          (let (es, a') = recordSent x accountId a jid sent
                           in (es, w\<lparr>accounts := map_set accountId a' (accounts w)\<rparr>))))))"

text \<open>
  \<open>sort((a, b) => a.timestamp - b.timestamp)\<close>: a stable ascending sort, with
  \<open>null\<close> as 0, when no timestamp is \<open>undefined\<close> (and nothing to sort for at most
  one message). With an \<open>undefined\<close> timestamp the comparator returns \<open>NaN\<close> and the
  order is the engine's.
\<close>

definition sortByTimestamp :: "externals \<Rightarrow> formatted_message list \<Rightarrow> formatted_message list" where
  "sortByTimestamp x ms =
     (if length ms \<le> 1 \<or> list_all (\<lambda>m. fm_timestamp m \<noteq> NumUndefined) ms
      then sort_key (\<lambda>m. numVal (fm_timestamp m)) ms
      else engineSort x ms)"

text \<open>The \<open>try\<close> block of \<open>get-messages\<close>.\<close>

definition getMessages :: "externals \<Rightarrow> string \<Rightarrow> account \<Rightarrow> string \<Rightarrow> emit list \<times> account" where
  "getMessages x accountId a jid =
     (let storedMsgs = (case map_get (messages a) jid of Some l \<Rightarrow> l | None \<Rightarrow> []);
          (contactInfo, a1) = getContactInfo a jid;
          formattedMsgs = map (\<lambda>m. formatMessage x m True) storedMsgs;
          e = (Socket, Messages accountId jid (fst contactInfo) (snd contactInfo)
                         (sortByTimestamp x formattedMsgs))
      in ([e], (case map_get (chats a1) jid of
                  Some c \<Rightarrow> a1\<lparr>chats := map_set jid (c\<lparr>unreadCount := Some 0\<rparr>) (chats a1)\<rparr>
                | None \<Rightarrow> a1)))"

definition on_get_messages :: "externals \<Rightarrow> world \<Rightarrow> string \<Rightarrow> string \<Rightarrow> emit list \<times> world" where
  "on_get_messages x w accountId jid =
     (case map_get (accounts w) accountId of
        None \<Rightarrow> ([(Socket, Error Conta_nao_conectada)], w)
      | Some a \<Rightarrow>
         if connectionState a \<noteq> Connected then ([(Socket, Error Conta_nao_conectada)], w)
         else (let (es, a') = getMessages x accountId a jid
               in (es, w\<lparr>accounts := map_set accountId a' (accounts w)\<rparr>)))"

text \<open>
  \<open>xs.slice(-n)\<close>: the last \<open>n\<close> elements for a positive \<open>n\<close>; for a negative
  \<open>n\<close> the start index \<open>-n\<close> is positive and the first \<open>-n\<close> elements are dropped.
\<close>

definition sliceNeg :: "int \<Rightarrow> 'a list \<Rightarrow> 'a list" where
  "sliceNeg n xs = (if 0 < n then drop (length xs - nat n) xs else drop (nat (- n)) xs)"

text \<open>
  The \<open>try\<close> block of \<open>get-history\<close>; \<open>now\<close> is \<open>Math.floor(Date.now() / 1000)\<close>.
  Without \<open>days\<close> (\<open>undefined\<close>) the start time is \<open>NaN\<close> and no message passes
  the filter; a \<open>null\<close> \<open>days\<close> multiplies as 0 and is \<open>Some 0\<close> here.
\<close>

definition getHistory :: "externals \<Rightarrow> string \<Rightarrow> account \<Rightarrow> string \<Rightarrow> int \<Rightarrow> int option \<Rightarrow> int option \<Rightarrow> emit list" where
  "getHistory x accountId a jid now days limit =
     (let storedMsgs = (case map_get (messages a) jid of Some l \<Rightarrow> l | None \<Rightarrow> []);
          startTime = map_option (\<lambda>d. now - d * 24 * 60 * 60) days;
          filteredMsgs = filter (\<lambda>msg. notBefore (messageTimestamp msg) startTime) storedMsgs;
          limitedMsgs = sliceNeg (numOr0 (js_orNum limit (Some 100))) filteredMsgs;
          formattedMsgs = map (\<lambda>m. formatMessage x m False) limitedMsgs
      in [(Socket, History accountId jid (sortByTimestamp x formattedMsgs) (length filteredMsgs))])"

definition on_get_history :: "externals \<Rightarrow> world \<Rightarrow> string \<Rightarrow> string \<Rightarrow> int \<Rightarrow> int option \<Rightarrow> int option \<Rightarrow> emit list \<times> world" where
  "on_get_history x w accountId jid now days limit =
     (case map_get (accounts w) accountId of
        None \<Rightarrow> ([(Socket, Error Conta_nao_conectada)], w)
      | Some a \<Rightarrow>
         if connectionState a \<noteq> Connected then ([(Socket, Error Conta_nao_conectada)], w)
         else (getHistory x accountId a jid now days limit, w))"

section \<open>Names for the steps of the resolution chain, and example states\<close>



text \<open>A connected account with empty stores and no socket, and a contact payload.\<close>

definition acc0 :: account where
  "acc0 = \<lparr>acc_id = ''acc_1'', acc_name = ''Conta'', sock = None, connectionState = Connected,
     qrCodeData = None, chats = [], messages = [], contacts = [], profilePics = [],
     pushNames = [], phoneNumber = None\<rparr>"

definition anaContact :: wa_contact where
  "anaContact = \<lparr>wc_id = ''5511999@x'', wc_name = None, wc_notify = Some ''Ana'', wc_verifiedName = None\<rparr>"

text \<open>
  Contact payloads for one number: an explicit name, a later update that carries only
  a notify name, and one that carries only a verified name.
\<close>

definition aliceContact :: wa_contact where
  "aliceContact = \<lparr>wc_id = ''5511999@s.whatsapp.net'', wc_name = Some ''Alice'', wc_notify = None,
                    wc_verifiedName = None\<rparr>"

definition bobUpdate :: wa_contact where
  "bobUpdate = \<lparr>wc_id = ''5511999@s.whatsapp.net'', wc_name = None, wc_notify = Some ''Bob'',
                 wc_verifiedName = None\<rparr>"

definition verifiedUpdate :: wa_contact where
  "verifiedUpdate = \<lparr>wc_id = ''5511999@s.whatsapp.net'', wc_name = None, wc_notify = None,
                      wc_verifiedName = Some ''Alice Ltda''\<rparr>"

text \<open>
  Library calls that fail, an outbound and an inbound message of one chat, and a socket
  whose \<open>sendMessage\<close> returns the outbound message.
\<close>

definition ext0 :: externals where
  "ext0 = \<lparr>downloadMediaMessage = (\<lambda>m. None), convertAudioToOgg = (\<lambda>b t. None),
           toDataURL = (\<lambda>q. q), engineSort = (\<lambda>ms. ms)\<rparr>"

definition sentMsg :: wa_message where
  "sentMsg = \<lparr>remoteJid = ''5511999@s.whatsapp.net'', fromMe = True, msgId = ''A1'',
              pushName = None, messageTimestamp = Num 1000,
              content = Some \<lparr>conversation = Some ''oi'', extendedText = None, imageMessage = None,
                               videoMessage = None, audioMessage = None, documentMessage = None,
                               stickerMessage = False\<rparr>\<rparr>"

definition inboundMsg :: wa_message where
  "inboundMsg = \<lparr>remoteJid = ''5511999@s.whatsapp.net'', fromMe = False, msgId = ''B1'',
              pushName = Some ''Ana'', messageTimestamp = Num 900,
              content = Some \<lparr>conversation = Some ''ola'', extendedText = None, imageMessage = None,
                               videoMessage = None, audioMessage = None, documentMessage = None,
                               stickerMessage = False\<rparr>\<rparr>"

definition gw0 :: gateway where
  "gw0 = \<lparr>groupMetadata = (\<lambda>j. None), profilePictureUrl = (\<lambda>j. None), storeContacts = None,
          sendMessage = (\<lambda>j out. Some (Some sentMsg)), userId = Some ''5511888:3@s.whatsapp.net'',
          groupFetchAllParticipating = True\<rparr>"

definition acc1 :: account where
  "acc1 = acc0\<lparr>sock := Some gw0, phoneNumber := Some ''5511888''\<rparr>"

text \<open>
  A registry with one connected account, its saved record and its credential folder.
\<close>

definition world1 :: "account \<Rightarrow> world" where
  "world1 a = \<lparr>accounts = [(''acc_1'', a)],
               accountsFile = Some [\<lparr>sa_id = ''acc_1'', sa_name = ''Conta'', sa_phoneNumber = Some ''5511888''\<rparr>],
               authFolders = [(''acc_1'', [''creds.json''])],
               pendingReconnects = []\<rparr>"

text \<open>Observations of a state: the message ids of a chat's log, and the sizes of the four stores.\<close>

definition logOf :: "world \<Rightarrow> string \<Rightarrow> string \<Rightarrow> string list" where
  "logOf w accountId jid =
     (case map_get (accounts w) accountId of
        None \<Rightarrow> []
      | Some a \<Rightarrow> (case map_get (messages a) jid of None \<Rightarrow> [] | Some l \<Rightarrow> map msgId l))"

definition storeSizes :: "world \<Rightarrow> string \<Rightarrow> nat \<times> nat \<times> nat \<times> nat" where
  "storeSizes w accountId =
     (case map_get (accounts w) accountId of
        None \<Rightarrow> (0, 0, 0, 0)
      | Some a \<Rightarrow> (length (chats a), length (messages a), length (contacts a), length (profilePics a)))"

text \<open>
  A \<open>connection.update\<close> that closes with the status code 401, taken here as the
  library's \<open>DisconnectReason.loggedOut\<close>.
\<close>

definition closeLoggedOut :: connection_update where
  "closeLoggedOut = \<lparr>up_connection = Some Close, up_statusCode = Some 401, up_qr = None\<rparr>"

text \<open>
  Message logs for \<open>get-history\<close>: one stored out of timestamp order, the
  scenario of a message from now and one from two days before, and a message whose
  timestamp is \<open>null\<close>.
\<close>

definition lateMsg :: wa_message where
  "lateMsg = \<lparr>remoteJid = ''5511999@s.whatsapp.net'', fromMe = False, msgId = ''L1'',
              pushName = None, messageTimestamp = Num 1000, content = None\<rparr>"

definition earlyMsg :: wa_message where
  "earlyMsg = \<lparr>remoteJid = ''5511999@s.whatsapp.net'', fromMe = False, msgId = ''E1'',
              pushName = None, messageTimestamp = Num 950, content = None\<rparr>"

definition historyIds :: "emit list \<Rightarrow> (string list \<times> nat) list" where
  "historyIds es = concat (map (\<lambda>e. case e of (_, History _ _ ms n) \<Rightarrow> [(map fm_id ms, n)] | _ \<Rightarrow> []) es)"

definition nowMsg :: wa_message where
  "nowMsg = \<lparr>remoteJid = ''5511999@s.whatsapp.net'', fromMe = False, msgId = ''N1'',
              pushName = None, messageTimestamp = Num 1700000000, content = None\<rparr>"

definition oldMsg :: wa_message where
  "oldMsg = \<lparr>remoteJid = ''5511999@s.whatsapp.net'', fromMe = False, msgId = ''O1'',
              pushName = None, messageTimestamp = Num 1699827200, content = None\<rparr>"

definition nullMsg :: wa_message where
  "nullMsg = \<lparr>remoteJid = ''5511999@s.whatsapp.net'', fromMe = False, msgId = ''Z1'',
              pushName = None, messageTimestamp = NumNull, content = None\<rparr>"

definition historyWorld :: "wa_message list \<Rightarrow> world" where
  "historyWorld ms = world1 (acc1\<lparr>messages := [(''5511999@s.whatsapp.net'', ms)]\<rparr>)"

text \<open>
  The words of the chat-list projection. A chat has activity when it is not skipped by
  the loop of \<open>getFormattedChats\<close>. The loop resolves the chats with activity in the
  order of the store, and every resolution may fill the picture cache and, for a group,
  the directory: \<open>stateAfter a js\<close> is the account after the ids \<open>js\<close> have been
  resolved in turn. \<open>avatarOf a jid\<close> is the picture of \<open>jid\<close> as the
  ProfilePictureCache answers in state \<open>a\<close>: the cached value when there is one (a
  cached \<open>null\<close> included), otherwise what the gateway returns, \<open>null\<close> when the call
  throws. \<open>entryOf a act i e\<close>: the entry \<open>e\<close> is the one pushed for the \<open>i\<close>-th chat
  of \<open>act\<close>; it carries that chat's fields, the name and picture \<open>getContactInfo\<close>
  returns for the chat's id in the state the loop has reached (after the chats before
  it), its picture is \<open>avatarOf\<close> in the initial state, and its name is a string.
\<close>

definition hasActivity :: "chat \<Rightarrow> bool" where
  "hasActivity c = (lastMessage c \<noteq> None \<or> truthyNum (conversationTimestamp c))"

definition stateAfter :: "account \<Rightarrow> string list \<Rightarrow> account" where
  "stateAfter a js = foldl (\<lambda>s j. snd (getContactInfo s j)) a js"

definition avatarOf :: "account \<Rightarrow> string \<Rightarrow> string option" where
  "avatarOf a jid =
     (case map_get (profilePics a) jid of
        Some v \<Rightarrow> v
      | None \<Rightarrow> (case sock a of
                   None \<Rightarrow> None
                 | Some g \<Rightarrow> (case profilePictureUrl g jid of None \<Rightarrow> None | Some url \<Rightarrow> url)))"

definition entryOf :: "account \<Rightarrow> chat list \<Rightarrow> nat \<Rightarrow> formatted_chat \<Rightarrow> bool" where
  "entryOf a act i e =
     (i < length act \<and>
      fc_id e = chat_id (act ! i) \<and> fc_lastMessage e = lastMessage (act ! i) \<and>
      fc_timestamp e = js_orNum (timestamp (act ! i)) (conversationTimestamp (act ! i)) \<and>
      fc_unreadCount e = numOr0 (unreadCount (act ! i)) \<and>
      (fc_name e, fc_profilePic e) =
         fst (getContactInfo (stateAfter a (map chat_id (take i act))) (chat_id (act ! i))) \<and>
      fc_profilePic e = avatarOf a (chat_id (act ! i)) \<and>
      (\<exists>n. fc_name e = Some n))"

text \<open>The chat-list entry of the chat of \<open>inboundMsg\<close>.\<close>

definition anaEntry :: formatted_chat where
  "anaEntry = \<lparr>fc_id = ''5511999@s.whatsapp.net'', fc_name = Some ''Ana'', fc_profilePic = None,
                fc_lastMessage = Some \<lparr>fm_id = ''B1'', fm_fromMe = False, fm_text = ''ola'',
                    fm_type = ''text'', fm_mediaData = None, fm_mediaMimetype = None,
                    fm_timestamp = Num 900, fm_pushName = Some ''Ana''\<rparr>,
                fc_timestamp = Some 900, fc_unreadCount = 1\<rparr>"

text \<open>
  A gateway that has a picture for every id, the account after one inbound live message
  under that gateway, and the chat-list entry of that chat with its picture.
\<close>

definition picGw :: gateway where
  "picGw = gw0\<lparr>profilePictureUrl := (\<lambda>j. Some (Some (''https://pps.example/'' @ j)))\<rparr>"

definition afterInbound :: account where
  "afterInbound = snd (on_messages_upsert ext0 (acc1\<lparr>sock := Some picGw\<rparr>) [inboundMsg] Notify)"

definition anaPicEntry :: formatted_chat where
  "anaPicEntry = anaEntry\<lparr>fc_profilePic := Some ''https://pps.example/5511999@s.whatsapp.net''\<rparr>"

text \<open>
  The number of chat-list broadcasts (\<open>io.emit('chats-update', ...)\<close>) among the
  emits of a handler, and a second inbound message of the same chat.
\<close>

definition chatsUpdates :: "emit list \<Rightarrow> nat" where
  "chatsUpdates es = length (filter isChatsUpdate es)"

definition inboundMsg2 :: wa_message where
  "inboundMsg2 = inboundMsg\<lparr>msgId := ''B2'', messageTimestamp := Num 901\<rparr>"

section \<open>Properties of the IdentityResolver\<close>

lemma replaceDevice_noat: "CHR ''@'' \<notin> set j \<Longrightarrow> replaceDevice j = j"
proof (induction j)
  case Nil then show ?case by simp
next
  case (Cons c cs)
  have "set (dropWhile isDigit cs) \<subseteq> set cs" by (simp add: set_dropWhileD subsetI)
  with Cons show ?case by (auto split: list.splits)
qed

lemma replaceDevice_has_at: "CHR ''@'' \<in> set j \<Longrightarrow> CHR ''@'' \<in> set (replaceDevice j)"
  by (induction j) (auto split: list.splits)

lemma normalizeJid_has_domain:
  assumes "j \<noteq> []"
  shows "\<exists>r. normalizeJid (Some j) = Some r \<and> CHR ''@'' \<in> set r"
  using assms by (simp add: normalizeJid_def truthy_def Let_def)

lemma normalizeJid_default_domain:
  assumes "j \<noteq> []" "CHR ''@'' \<notin> set j"
  shows "normalizeJid (Some j) = Some (j @ ''@s.whatsapp.net'')"
  using assms by (simp add: normalizeJid_def truthy_def Let_def replaceDevice_noat)

lemma splitFirst_append: "sep \<notin> set p \<Longrightarrow> splitFirst sep (p @ sep # r) = p"
  by (induction p) (auto simp: splitFirst_def)

lemma splitFirst_none: "sep \<notin> set p \<Longrightarrow> splitFirst sep p = p"
  by (induction p) (auto simp: splitFirst_def)

lemma splitFirst_skip: "sep \<notin> set p \<Longrightarrow> c \<noteq> sep \<Longrightarrow> splitFirst sep (p @ c # r) = p @ c # splitFirst sep r"
  by (induction p) (auto simp: splitFirst_def)

lemma getPhone_cases:
  assumes "CHR ''@'' \<notin> set p" "CHR '':'' \<notin> set p"
  shows "getPhoneFromJid (Some p) = p"
    and "getPhoneFromJid (Some (p @ CHR ''@'' # r)) = p"
    and "getPhoneFromJid (Some (p @ CHR '':'' # r)) = p"
proof -
  show "getPhoneFromJid (Some p) = p" using assms
    by (cases p) (simp_all add: getPhoneFromJid_def truthy_def splitFirst_none)
  show "getPhoneFromJid (Some (p @ CHR ''@'' # r)) = p" using assms
    by (simp add: getPhoneFromJid_def truthy_def splitFirst_append splitFirst_none)
  have "splitFirst CHR ''@'' (p @ CHR '':'' # r) = p @ CHR '':'' # splitFirst CHR ''@'' r"
    using assms(1) by (simp add: splitFirst_skip)
  then show "getPhoneFromJid (Some (p @ CHR '':'' # r)) = p" using assms
    by (simp add: getPhoneFromJid_def truthy_def splitFirst_append)
qed

lemma getPhone_no_sep: "CHR ''@'' \<notin> set (getPhoneFromJid j) \<and> CHR '':'' \<notin> set (getPhoneFromJid j)"
proof -
  have a: "\<And>s sep. sep \<notin> set (splitFirst sep s)"
    by (metis (mono_tags, lifting) splitFirst_def set_takeWhileD)
  have b: "\<And>s sep. set (splitFirst sep s) \<subseteq> set s"
    by (auto simp: splitFirst_def dest: set_takeWhileD)
  show ?thesis
  proof (cases j)
    case None then show ?thesis by (simp add: getPhoneFromJid_def truthy_def)
  next
    case (Some s)
    have "CHR ''@'' \<notin> set (splitFirst CHR ''@'' s)" by (rule a)
    with b[of "CHR '':''" "splitFirst CHR ''@'' s"] a[of "CHR '':''" "splitFirst CHR ''@'' s"]
    show ?thesis using Some by (auto simp: getPhoneFromJid_def)
  qed
qed

lemma replaceDevice_strip:
  assumes "CHR ''@'' \<notin> set u" "ds \<noteq> []" "\<forall>c\<in>set ds. isDigit c"
  shows "replaceDevice (u @ CHR '':'' # ds @ CHR ''@'' # d) = u @ CHR ''@'' # d"
  using assms(1)
proof (induction u)
  case Nil
  have nd: "\<not> isDigit CHR ''@''" by (simp add: isDigit_def)
  have t: "takeWhile isDigit (ds @ CHR ''@'' # d) = ds" using assms(3) nd
    by (simp add: takeWhile_append2 takeWhile_tail)
  have dr: "dropWhile isDigit (ds @ CHR ''@'' # d) = CHR ''@'' # d" using assms(3) nd
    by (simp add: dropWhile_append2)
  show ?case using t dr assms(2) by simp
next
  case (Cons c u)
  let ?rest = "u @ CHR '':'' # ds @ CHR ''@'' # d"
  have "\<not> (c = CHR '':'' \<and> takeWhile isDigit ?rest \<noteq> [] \<and>
         (case dropWhile isDigit ?rest of [] \<Rightarrow> False | d # _ \<Rightarrow> d = CHR ''@''))"
  proof (cases "\<forall>x\<in>set u. isDigit x")
    case True
    have "\<not> isDigit CHR '':''" by (simp add: isDigit_def)
    then have "dropWhile isDigit ?rest = CHR '':'' # ds @ CHR ''@'' # d" using True
      by (simp add: dropWhile_append2)
    then show ?thesis by simp
  next
    case False
    then have "dropWhile isDigit ?rest = dropWhile isDigit u @ CHR '':'' # ds @ CHR ''@'' # d"
      by (metis dropWhile_append1)
    moreover obtain h t where ht: "dropWhile isDigit u = h # t"
      using False by (cases "dropWhile isDigit u") auto
    moreover have "h \<in> set u"
      by (metis ht list.set_intros(1) set_dropWhileD)
    ultimately have "dropWhile isDigit ?rest = h # (t @ CHR '':'' # ds @ CHR ''@'' # d)" "h \<noteq> CHR ''@''"
      using Cons.prems by auto
    then show ?thesis by simp
  qed
  then have "replaceDevice (c # ?rest) = c # replaceDevice ?rest"
    by (simp only: replaceDevice.simps if_False)
  moreover have "replaceDevice ?rest = u @ CHR ''@'' # d" using Cons by simp
  ultimately show ?case by simp
qed

lemma hasSegment_intro:
  assumes "ds \<noteq> []" "\<forall>c\<in>set ds. isDigit c"
  shows "hasSegment (u @ CHR '':'' # ds @ CHR ''@'' # d)"
proof (induction u)
  case Nil
  have nd: "\<not> isDigit CHR ''@''" by (simp add: isDigit_def)
  have "takeWhile isDigit (ds @ CHR ''@'' # d) = ds" using assms(2) nd
    by (simp add: takeWhile_tail)
  moreover have "dropWhile isDigit (ds @ CHR ''@'' # d) = CHR ''@'' # d" using assms(2) nd
    by (simp add: dropWhile_append2)
  ultimately show ?case using assms(1) by simp
next
  case (Cons c u)
  then show ?case by simp
qed

lemma hasSegment_elim:
  "hasSegment j \<Longrightarrow>
   \<exists>u ds d. j = u @ CHR '':'' # ds @ CHR ''@'' # d \<and> ds \<noteq> [] \<and> (\<forall>c\<in>set ds. isDigit c)"
proof (induction j)
  case Nil then show ?case by simp
next
  case (Cons c cs)
  show ?case
  proof (cases "c = CHR '':'' \<and> takeWhile isDigit cs \<noteq> [] \<and>
       (case dropWhile isDigit cs of [] \<Rightarrow> False | d # _ \<Rightarrow> d = CHR ''@'')")
    case True
    then obtain r where r: "dropWhile isDigit cs = CHR ''@'' # r"
      by (cases "dropWhile isDigit cs") auto
    have "cs = takeWhile isDigit cs @ CHR ''@'' # r"
      using r takeWhile_dropWhile_id[of isDigit cs] by simp
    then have "c # cs = [] @ CHR '':'' # takeWhile isDigit cs @ CHR ''@'' # r" using True by simp
    moreover have "\<forall>x\<in>set (takeWhile isDigit cs). isDigit x" by (auto dest: set_takeWhileD)
    ultimately show ?thesis using True by blast
  next
    case False
    with Cons.prems have "hasSegment cs" by simp
    from Cons.IH[OF this] obtain u ds d where
      "cs = u @ CHR '':'' # ds @ CHR ''@'' # d" "ds \<noteq> []" "\<forall>c\<in>set ds. isDigit c" by blast
    then have "c # cs = (c # u) @ CHR '':'' # ds @ CHR ''@'' # d" by simp
    with \<open>ds \<noteq> []\<close> \<open>\<forall>c\<in>set ds. isDigit c\<close> show ?thesis by blast
  qed
qed

lemma hasSegment_iff:
  "hasSegment j \<longleftrightarrow>
   (\<exists>u ds d. j = u @ CHR '':'' # ds @ CHR ''@'' # d \<and> ds \<noteq> [] \<and> (\<forall>c\<in>set ds. isDigit c))"
  using hasSegment_elim hasSegment_intro by blast

lemma replaceDevice_no_segment: "\<not> hasSegment j \<Longrightarrow> replaceDevice j = j"
proof (induction j)
  case Nil then show ?case by simp
next
  case (Cons c cs)
  have "\<not> (c = CHR '':'' \<and> takeWhile isDigit cs \<noteq> [] \<and>
            (case dropWhile isDigit cs of [] \<Rightarrow> False | d # _ \<Rightarrow> d = CHR ''@''))"
  proof
    assume h: "c = CHR '':'' \<and> takeWhile isDigit cs \<noteq> [] \<and>
            (case dropWhile isDigit cs of [] \<Rightarrow> False | d # _ \<Rightarrow> d = CHR ''@'')"
    then obtain r where "dropWhile isDigit cs = CHR ''@'' # r"
      by (cases "dropWhile isDigit cs") auto
    with h have "hasSegment (c # cs)" by simp
    with Cons.prems show False by simp
  qed
  then have "replaceDevice (c # cs) = c # replaceDevice cs"
    by (simp only: replaceDevice.simps if_False)
  moreover have "\<not> hasSegment cs" using Cons.prems by simp
  ultimately show ?case using Cons.IH by simp
qed

lemma replaceDevice_leftmost:
  assumes "\<not> hasSegment u" "ds \<noteq> []" "\<forall>c\<in>set ds. isDigit c"
  shows "replaceDevice (u @ CHR '':'' # ds @ CHR ''@'' # d) = u @ CHR ''@'' # d"
  using assms(1)
proof (induction u)
  case Nil
  show ?case using replaceDevice_strip[of "[]" ds d] assms(2,3) by simp
next
  case (Cons c u)
  let ?rest = "u @ CHR '':'' # ds @ CHR ''@'' # d"
  have "\<not> (c = CHR '':'' \<and> takeWhile isDigit ?rest \<noteq> [] \<and>
         (case dropWhile isDigit ?rest of [] \<Rightarrow> False | d # _ \<Rightarrow> d = CHR ''@''))"
  proof (cases "\<forall>x\<in>set u. isDigit x")
    case True
    have "\<not> isDigit CHR '':''" by (simp add: isDigit_def)
    then have "dropWhile isDigit ?rest = CHR '':'' # ds @ CHR ''@'' # d" using True
      by (simp add: dropWhile_append2)
    then show ?thesis by simp
  next
    case False
    then have dr: "dropWhile isDigit ?rest = dropWhile isDigit u @ CHR '':'' # ds @ CHR ''@'' # d"
      and tk: "takeWhile isDigit ?rest = takeWhile isDigit u"
      by (metis dropWhile_append1, metis takeWhile_append1)
    obtain h t where ht: "dropWhile isDigit u = h # t"
      using False by (cases "dropWhile isDigit u") auto
    show ?thesis
    proof
      assume a: "c = CHR '':'' \<and> takeWhile isDigit ?rest \<noteq> [] \<and>
         (case dropWhile isDigit ?rest of [] \<Rightarrow> False | d # _ \<Rightarrow> d = CHR ''@'')"
      then have "h = CHR ''@''" "takeWhile isDigit u \<noteq> []" using dr tk ht by auto
      then have "hasSegment (CHR '':'' # u)" using ht by simp
      with a Cons.prems show False by simp
    qed
  qed
  then have "replaceDevice (c # ?rest) = c # replaceDevice ?rest"
    by (simp only: replaceDevice.simps if_False)
  moreover have "\<not> hasSegment u" using Cons.prems by simp
  ultimately show ?case using Cons.IH by simp
qed

lemma hasSegment_colon: "hasSegment j \<Longrightarrow> CHR '':'' \<in> set j \<and> CHR ''@'' \<in> set j"
  unfolding hasSegment_iff by auto

lemma normalizeJid_plain:
  assumes "CHR ''@'' \<in> set j" "\<not> hasSegment j"
  shows "normalizeJid (Some j) = Some j"
proof -
  have "j \<noteq> []" using assms(1) by auto
  then show ?thesis using assms
    by (simp add: normalizeJid_def truthy_def Let_def replaceDevice_no_segment)
qed

lemma normalizeJid_leftmost:
  assumes "\<not> hasSegment u" "ds \<noteq> []" "\<forall>c\<in>set ds. isDigit c"
  shows "normalizeJid (Some (u @ CHR '':'' # ds @ CHR ''@'' # d)) = Some (u @ CHR ''@'' # d)"
  using assms by (simp add: normalizeJid_def truthy_def Let_def replaceDevice_leftmost)


lemma hasSegment_leftmost:
  "hasSegment j \<Longrightarrow>
   \<exists>u ds d. j = u @ CHR '':'' # ds @ CHR ''@'' # d \<and> \<not> hasSegment u \<and> ds \<noteq> [] \<and>
            (\<forall>c\<in>set ds. isDigit c)"
proof (induction j)
  case Nil then show ?case by simp
next
  case (Cons c cs)
  show ?case
  proof (cases "c = CHR '':'' \<and> takeWhile isDigit cs \<noteq> [] \<and>
       (case dropWhile isDigit cs of [] \<Rightarrow> False | d # _ \<Rightarrow> d = CHR ''@'')")
    case True
    then obtain r where r: "dropWhile isDigit cs = CHR ''@'' # r"
      by (cases "dropWhile isDigit cs") auto
    have "cs = takeWhile isDigit cs @ CHR ''@'' # r"
      using r takeWhile_dropWhile_id[of isDigit cs] by simp
    then have "c # cs = [] @ CHR '':'' # takeWhile isDigit cs @ CHR ''@'' # r" using True by simp
    moreover have "\<forall>x\<in>set (takeWhile isDigit cs). isDigit x" by (auto dest: set_takeWhileD)
    moreover have "\<not> hasSegment []" by simp
    ultimately show ?thesis using True by blast
  next
    case False
    with Cons.prems have "hasSegment cs" by simp
    from Cons.IH[OF this] obtain u ds d where
      u: "cs = u @ CHR '':'' # ds @ CHR ''@'' # d" "\<not> hasSegment u" "ds \<noteq> []"
         "\<forall>c\<in>set ds. isDigit c" by blast
    have "\<not> hasSegment (c # u)"
    proof
      assume "hasSegment (c # u)"
      with u(2) have hc: "c = CHR '':''" "takeWhile isDigit u \<noteq> []"
        "(case dropWhile isDigit u of [] \<Rightarrow> False | d # _ \<Rightarrow> d = CHR ''@'')" by auto
      then obtain t where t: "dropWhile isDigit u = CHR ''@'' # t"
        by (cases "dropWhile isDigit u") auto
      then have nd: "\<not> (\<forall>x\<in>set u. isDigit x)" by (metis dropWhile_eq_Nil_conv list.distinct(1))
      have "takeWhile isDigit cs = takeWhile isDigit u" unfolding u(1) using nd
        by (metis takeWhile_append1)
      moreover have "dropWhile isDigit cs = dropWhile isDigit u @ CHR '':'' # ds @ CHR ''@'' # d"
        unfolding u(1) using nd by (metis dropWhile_append1)
      ultimately show False using False hc t by simp
    qed
    moreover have "c # cs = (c # u) @ CHR '':'' # ds @ CHR ''@'' # d" using u(1) by simp
    ultimately show ?thesis using u(3,4) by blast
  qed
qed

text \<open>
  Claim C6, as the code has it. Both functions are total. \<open>getPhoneFromJid\<close> returns
  the part of the identifier before the first \<open>@\<close> or \<open>:\<close>, and the empty string
  for \<open>null\<close> and for the empty string. \<open>normalizeJid\<close> returns \<open>null\<close> (not an empty
  string) for \<open>null\<close> and for the empty string; for every other identifier the result
  has a domain: the default domain \<open>@s.whatsapp.net\<close> is appended when the identifier
  has no \<open>@\<close>; an identifier with a domain and no device segment (\<open>:\<close>, digits,
  \<open>@\<close>), in particular one without \<open>:\<close>, is returned as it is; otherwise the
  leftmost device segment is replaced by \<open>@\<close>, and every identifier with a device
  segment has a leftmost one.
\<close>

theorem identity_resolver:
  "getPhoneFromJid None = [] \<and> getPhoneFromJid (Some []) = [] \<and>
   normalizeJid None = None \<and> normalizeJid (Some []) = None \<and>
   (j \<noteq> [] \<longrightarrow> (\<exists>r. normalizeJid (Some j) = Some r \<and> CHR ''@'' \<in> set r)) \<and>
   (j \<noteq> [] \<and> CHR ''@'' \<notin> set j \<longrightarrow> normalizeJid (Some j) = Some (j @ ''@s.whatsapp.net'')) \<and>
   (CHR ''@'' \<notin> set u \<and> ds \<noteq> [] \<and> (\<forall>c\<in>set ds. isDigit c) \<longrightarrow>
      normalizeJid (Some (u @ CHR '':'' # ds @ CHR ''@'' # d)) = Some (u @ CHR ''@'' # d)) \<and>
   (CHR ''@'' \<notin> set p \<and> CHR '':'' \<notin> set p \<longrightarrow>
      getPhoneFromJid (Some p) = p \<and>
      getPhoneFromJid (Some (p @ CHR ''@'' # r)) = p \<and>
      getPhoneFromJid (Some (p @ CHR '':'' # r)) = p) \<and>
   CHR ''@'' \<notin> set (getPhoneFromJid i) \<and> CHR '':'' \<notin> set (getPhoneFromJid i) \<and>
   (CHR ''@'' \<in> set j \<and> CHR '':'' \<notin> set j \<longrightarrow> normalizeJid (Some j) = Some j) \<and>
   (CHR ''@'' \<in> set j \<and> \<not> hasSegment j \<longrightarrow> normalizeJid (Some j) = Some j) \<and>
   (\<not> hasSegment u \<and> ds \<noteq> [] \<and> (\<forall>c\<in>set ds. isDigit c) \<longrightarrow>
      normalizeJid (Some (u @ CHR '':'' # ds @ CHR ''@'' # d)) = Some (u @ CHR ''@'' # d)) \<and>
   (hasSegment j \<longleftrightarrow>
      (\<exists>v es e. j = v @ CHR '':'' # es @ CHR ''@'' # e \<and> \<not> hasSegment v \<and> es \<noteq> [] \<and>
                (\<forall>c\<in>set es. isDigit c)))"
proof -
  have strip: "CHR ''@'' \<notin> set u \<and> ds \<noteq> [] \<and> (\<forall>c\<in>set ds. isDigit c) \<longrightarrow>
      normalizeJid (Some (u @ CHR '':'' # ds @ CHR ''@'' # d)) = Some (u @ CHR ''@'' # d)"
    by (simp add: normalizeJid_def truthy_def Let_def replaceDevice_strip)
  have nulls: "getPhoneFromJid None = []" "getPhoneFromJid (Some []) = []"
    "normalizeJid None = None" "normalizeJid (Some []) = None"
    by (simp_all add: getPhoneFromJid_def normalizeJid_def truthy_def)
  have old: "getPhoneFromJid None = [] \<and> getPhoneFromJid (Some []) = [] \<and>
   normalizeJid None = None \<and> normalizeJid (Some []) = None \<and>
   (j \<noteq> [] \<longrightarrow> (\<exists>r. normalizeJid (Some j) = Some r \<and> CHR ''@'' \<in> set r)) \<and>
   (j \<noteq> [] \<and> CHR ''@'' \<notin> set j \<longrightarrow> normalizeJid (Some j) = Some (j @ ''@s.whatsapp.net'')) \<and>
   (CHR ''@'' \<notin> set u \<and> ds \<noteq> [] \<and> (\<forall>c\<in>set ds. isDigit c) \<longrightarrow>
      normalizeJid (Some (u @ CHR '':'' # ds @ CHR ''@'' # d)) = Some (u @ CHR ''@'' # d)) \<and>
   (CHR ''@'' \<notin> set p \<and> CHR '':'' \<notin> set p \<longrightarrow>
      getPhoneFromJid (Some p) = p \<and>
      getPhoneFromJid (Some (p @ CHR ''@'' # r)) = p \<and>
      getPhoneFromJid (Some (p @ CHR '':'' # r)) = p) \<and>
   CHR ''@'' \<notin> set (getPhoneFromJid i) \<and> CHR '':'' \<notin> set (getPhoneFromJid i)"
    using nulls strip normalizeJid_has_domain[of j] normalizeJid_default_domain[of j]
      getPhone_cases(1)[of p] getPhone_cases(2,3)[of p r] getPhone_no_sep[of i]
    by blast
  have plain: "CHR ''@'' \<in> set j \<and> \<not> hasSegment j \<longrightarrow> normalizeJid (Some j) = Some j"
    using normalizeJid_plain by blast
  have nocolon: "CHR ''@'' \<in> set j \<and> CHR '':'' \<notin> set j \<longrightarrow> normalizeJid (Some j) = Some j"
    using normalizeJid_plain hasSegment_colon by blast
  have left: "\<not> hasSegment u \<and> ds \<noteq> [] \<and> (\<forall>c\<in>set ds. isDigit c) \<longrightarrow>
      normalizeJid (Some (u @ CHR '':'' # ds @ CHR ''@'' # d)) = Some (u @ CHR ''@'' # d)"
    using normalizeJid_leftmost by blast
  have seg: "hasSegment j \<longleftrightarrow>
      (\<exists>v es e. j = v @ CHR '':'' # es @ CHR ''@'' # e \<and> \<not> hasSegment v \<and> es \<noteq> [] \<and>
                (\<forall>c\<in>set es. isDigit c))"
    using hasSegment_leftmost[of j] hasSegment_intro by blast
  show ?thesis
    using old nocolon plain left seg
    apply (elim conjE)
    apply (intro conjI)
    apply assumption+
    done
qed

text \<open>
  Witness for C6: the identifiers \<open>5511999\<close>, \<open>5511999:7@s.whatsapp.net\<close>,
  \<open>5511999@s.whatsapp.net\<close> and \<open>120363@g.us\<close>.
\<close>

theorem identity_resolver_witness:
  "normalizeJid (Some ''5511999'') = Some ''5511999@s.whatsapp.net'' \<and>
   normalizeJid (Some ''5511999:7@s.whatsapp.net'') = Some ''5511999@s.whatsapp.net'' \<and>
   getPhoneFromJid (Some ''5511999:7@s.whatsapp.net'') = ''5511999'' \<and>
   getPhoneFromJid (Some ''5511999@s.whatsapp.net'') = ''5511999'' \<and>
   \<not> hasSegment ''5511999@s.whatsapp.net'' \<and>
   normalizeJid (Some ''5511999@s.whatsapp.net'') = Some ''5511999@s.whatsapp.net'' \<and>
   normalizeJid (Some ''120363@g.us'') = Some ''120363@g.us''"
proof -
  have h: "\<not> hasSegment ''5511999@s.whatsapp.net''" by code_simp
  from identity_resolver[where j = "''5511999''" and u = "''5511999''" and ds = "''7''"
      and d = "''s.whatsapp.net''" and p = "''5511999''"
      and r = "''s.whatsapp.net''" and i = "None"]
  have "''5511999'' \<noteq> [] \<and> CHR ''@'' \<notin> set ''5511999'' \<longrightarrow>
          normalizeJid (Some ''5511999'') = Some (''5511999'' @ ''@s.whatsapp.net'')"
    by (elim conjE)
  then have w1: "normalizeJid (Some ''5511999'') = Some ''5511999@s.whatsapp.net''" by simp
  from identity_resolver[where j = "''5511999''" and u = "''5511999''" and ds = "''7''"
      and d = "''s.whatsapp.net''" and p = "''5511999''"
      and r = "''s.whatsapp.net''" and i = "None"]
  have "CHR ''@'' \<notin> set ''5511999'' \<and> ''7'' \<noteq> [] \<and> (\<forall>c\<in>set ''7''. isDigit c) \<longrightarrow>
      normalizeJid (Some (''5511999'' @ CHR '':'' # ''7'' @ CHR ''@'' # ''s.whatsapp.net''))
        = Some (''5511999'' @ CHR ''@'' # ''s.whatsapp.net'')"
    by (elim conjE)
  then have w2: "normalizeJid (Some ''5511999:7@s.whatsapp.net'') = Some ''5511999@s.whatsapp.net''"
    by (simp add: isDigit_def)
  from identity_resolver[where j = "''5511999''" and u = "''5511999''" and ds = "''7''"
      and d = "''s.whatsapp.net''" and p = "''5511999''"
      and r = "''7@s.whatsapp.net''" and i = "None"]
  have "CHR ''@'' \<notin> set ''5511999'' \<and> CHR '':'' \<notin> set ''5511999'' \<longrightarrow>
      getPhoneFromJid (Some ''5511999'') = ''5511999'' \<and>
      getPhoneFromJid (Some (''5511999'' @ CHR ''@'' # ''7@s.whatsapp.net'')) = ''5511999'' \<and>
      getPhoneFromJid (Some (''5511999'' @ CHR '':'' # ''7@s.whatsapp.net'')) = ''5511999''"
    by (elim conjE)
  then have w3: "getPhoneFromJid (Some ''5511999:7@s.whatsapp.net'') = ''5511999''" by simp
  from identity_resolver[where j = "''5511999''" and u = "''5511999''" and ds = "''7''"
      and d = "''s.whatsapp.net''" and p = "''5511999''"
      and r = "''s.whatsapp.net''" and i = "None"]
  have "CHR ''@'' \<notin> set ''5511999'' \<and> CHR '':'' \<notin> set ''5511999'' \<longrightarrow>
      getPhoneFromJid (Some ''5511999'') = ''5511999'' \<and>
      getPhoneFromJid (Some (''5511999'' @ CHR ''@'' # ''s.whatsapp.net'')) = ''5511999'' \<and>
      getPhoneFromJid (Some (''5511999'' @ CHR '':'' # ''s.whatsapp.net'')) = ''5511999''"
    by (elim conjE)
  then have w4: "getPhoneFromJid (Some ''5511999@s.whatsapp.net'') = ''5511999''" by simp
  from identity_resolver[where j = "''5511999@s.whatsapp.net''" and u = "''5511999''" and ds = "''7''"
      and d = "''s.whatsapp.net''" and p = "''5511999''"
      and r = "''s.whatsapp.net''" and i = "None"]
  have "CHR ''@'' \<in> set ''5511999@s.whatsapp.net'' \<and> \<not> hasSegment ''5511999@s.whatsapp.net'' \<longrightarrow>
          normalizeJid (Some ''5511999@s.whatsapp.net'') = Some ''5511999@s.whatsapp.net''"
    by (elim conjE)
  with h have w5: "normalizeJid (Some ''5511999@s.whatsapp.net'') = Some ''5511999@s.whatsapp.net''"
    by simp
  from identity_resolver[where j = "''120363@g.us''" and u = "''5511999''" and ds = "''7''"
      and d = "''s.whatsapp.net''" and p = "''5511999''"
      and r = "''s.whatsapp.net''" and i = "None"]
  have "CHR ''@'' \<in> set ''120363@g.us'' \<and> CHR '':'' \<notin> set ''120363@g.us'' \<longrightarrow>
          normalizeJid (Some ''120363@g.us'') = Some ''120363@g.us''"
    by (elim conjE)
  then have w6: "normalizeJid (Some ''120363@g.us'') = Some ''120363@g.us''" by simp
  from w1 w2 w3 w4 h w5 w6 show ?thesis by (intro conjI)
qed

text \<open>
  Counterexample to C6 as stated: for \<open>null\<close> \<open>normalizeJid\<close> returns \<open>null\<close>, not
  an empty string, and for \<open>5511999:7\<close>, an identifier with a device suffix and no
  domain separator, the device suffix is kept.
\<close>

theorem identity_resolver_counterexample:
  "normalizeJid None \<noteq> Some [] \<and>
   normalizeJid (Some ''5511999:7'') = Some ''5511999:7@s.whatsapp.net''"
  by (simp add: normalizeJid_def truthy_def isDigit_def Let_def)

section \<open>Properties of name resolution\<close>

lemma getContactInfo_name:
  "fst (fst (getContactInfo a jid)) =
     (if truthy (lookupName a jid) then lookupName a jid else Some (fst (fallbackName a jid)))"
  by (simp add: getContactInfo_def Let_def split: prod.splits)

lemma truthy_Some: "truthy v \<Longrightarrow> \<exists>n. v = Some n"
  by (cases v) (simp_all add: truthy_def)

lemma getContactInfo_name_Some: "\<exists>n. fst (fst (getContactInfo a jid)) = Some n"
  by (simp add: getContactInfo_name truthy_Some)


lemma scanContacts_none:
  "\<not> truthy nm \<Longrightarrow> \<not> truthy (scanContacts phone cs nm) \<Longrightarrow>
   find (\<lambda>e. getPhoneFromJid (fst e) = phone \<and> truthy (contactName (snd e))) cs = None"
proof (induction cs arbitrary: nm)
  case Nil then show ?case by simp
next
  case (Cons e es)
  obtain k v where e: "e = (k, v)" by (cases e)
  show ?case using Cons e by (auto simp: Let_def split: if_splits)
qed


lemma formatNumber_9:
  "length ddd = 2 \<Longrightarrow> length rest = 9 \<Longrightarrow>
   formatNumber (''55'' @ ddd @ rest) = ''('' @ ddd @ '') '' @ take 5 rest @ ''-'' @ drop 5 rest"
  by (simp add: formatNumber_def startsWith_def Let_def)

lemma formatNumber_8:
  "length ddd = 2 \<Longrightarrow> length rest = 8 \<Longrightarrow>
   formatNumber (''55'' @ ddd @ rest) = ''('' @ ddd @ '') '' @ take 4 rest @ ''-'' @ drop 4 rest"
  by (simp add: formatNumber_def startsWith_def Let_def)

lemma formatNumber_other:
  "\<not> (startsWith number ''55'' \<and> (length number = 12 \<or> length number = 13)) \<Longrightarrow>
   formatNumber number = ''+'' @ number"
  by (auto simp: formatNumber_def Let_def)

lemma fallbackName_ordinary:
  "\<not> endsWith jid ''@g.us'' \<Longrightarrow> \<not> endsWith jid ''@lid'' \<Longrightarrow> \<not> endsWith jid ''@newsletter'' \<Longrightarrow>
   fst (fallbackName a jid) = formatNumber (getPhoneFromJid (Some jid))"
  by (simp add: fallbackName_def)

lemma map_get_set_same: "map_get (map_set k v m) k = Some v"
  by (induction m) (auto simp: map_get_def)

lemma map_get_set_other: "k' \<noteq> k \<Longrightarrow> map_get (map_set k v m) k' = map_get m k'"
  by (induction m) (auto simp: map_get_def)

lemma getProfilePicture_frame:
  "contacts (snd (getProfilePicture a jid)) = contacts a"
  "chats (snd (getProfilePicture a jid)) = chats a"
  "messages (snd (getProfilePicture a jid)) = messages a"
  "pushNames (snd (getProfilePicture a jid)) = pushNames a"
  "sock (snd (getProfilePicture a jid)) = sock a"
  "acc_id (snd (getProfilePicture a jid)) = acc_id a"
  "acc_name (snd (getProfilePicture a jid)) = acc_name a"
  "connectionState (snd (getProfilePicture a jid)) = connectionState a"
  "phoneNumber (snd (getProfilePicture a jid)) = phoneNumber a"
  "qrCodeData (snd (getProfilePicture a jid)) = qrCodeData a"
  by (simp_all add: getProfilePicture_def split: option.splits)

lemma fallbackName_frame:
  "chats (snd (fallbackName a jid)) = chats a"
  "messages (snd (fallbackName a jid)) = messages a"
  "pushNames (snd (fallbackName a jid)) = pushNames a"
  "sock (snd (fallbackName a jid)) = sock a"
  "acc_id (snd (fallbackName a jid)) = acc_id a"
  "acc_name (snd (fallbackName a jid)) = acc_name a"
  "connectionState (snd (fallbackName a jid)) = connectionState a"
  "phoneNumber (snd (fallbackName a jid)) = phoneNumber a"
  "qrCodeData (snd (fallbackName a jid)) = qrCodeData a"
  "profilePics (snd (fallbackName a jid)) = profilePics a"
  by (simp_all add: fallbackName_def split: option.splits)

lemma getContactInfo_snd:
  "snd (getContactInfo a jid) =
     snd (getProfilePicture (if truthy (lookupName a jid) then a else snd (fallbackName a jid)) jid)"
  by (simp add: getContactInfo_def Let_def split: prod.splits)

lemma getContactInfo_frame:
  "chats (snd (getContactInfo a jid)) = chats a"
  "messages (snd (getContactInfo a jid)) = messages a"
  "pushNames (snd (getContactInfo a jid)) = pushNames a"
  "sock (snd (getContactInfo a jid)) = sock a"
  "acc_id (snd (getContactInfo a jid)) = acc_id a"
  "acc_name (snd (getContactInfo a jid)) = acc_name a"
  "connectionState (snd (getContactInfo a jid)) = connectionState a"
  "phoneNumber (snd (getContactInfo a jid)) = phoneNumber a"
  "qrCodeData (snd (getContactInfo a jid)) = qrCodeData a"
  by (simp_all add: getContactInfo_snd getProfilePicture_frame fallbackName_frame)




text \<open>
  Claim C9. For an identifier that no source names and that is neither a group, a
  channel nor a newsletter id, the name is built from the phone number: for
  \<open>5511987654321\<close> it is \<open>(11) 98765-4321\<close>; a number \<open>55\<close>, two digits of area
  code and nine more is formatted as area code, five and four; with eight more as area
  code, four and four; every other number is the number after a \<open>+\<close>.
\<close>

theorem unknown_number_fallback:
  assumes "\<not> truthy (lookupName a jid)"
    and "\<not> endsWith jid ''@g.us''" and "\<not> endsWith jid ''@lid''" and "\<not> endsWith jid ''@newsletter''"
  shows "(getPhoneFromJid (Some jid) = ''5511987654321'' \<longrightarrow>
            fst (fst (getContactInfo a jid)) = Some ''(11) 98765-4321'') \<and>
         (\<forall>ddd rest. getPhoneFromJid (Some jid) = ''55'' @ ddd @ rest \<and> length ddd = 2 \<and> length rest = 9 \<longrightarrow>
            fst (fst (getContactInfo a jid)) =
              Some (''('' @ ddd @ '') '' @ take 5 rest @ ''-'' @ drop 5 rest)) \<and>
         (\<forall>ddd rest. getPhoneFromJid (Some jid) = ''55'' @ ddd @ rest \<and> length ddd = 2 \<and> length rest = 8 \<longrightarrow>
            fst (fst (getContactInfo a jid)) =
              Some (''('' @ ddd @ '') '' @ take 4 rest @ ''-'' @ drop 4 rest)) \<and>
         (\<not> (startsWith (getPhoneFromJid (Some jid)) ''55'' \<and>
              (length (getPhoneFromJid (Some jid)) = 12 \<or> length (getPhoneFromJid (Some jid)) = 13)) \<longrightarrow>
            fst (fst (getContactInfo a jid)) = Some (''+'' @ getPhoneFromJid (Some jid)))"
proof -
  have n: "fst (fst (getContactInfo a jid)) = Some (formatNumber (getPhoneFromJid (Some jid)))"
    using assms by (simp add: getContactInfo_name fallbackName_ordinary)
  have s: "formatNumber ''5511987654321'' = ''(11) 98765-4321''"
    by (simp add: formatNumber_def startsWith_def Let_def)
  show ?thesis
  proof (intro conjI allI impI)
    assume "getPhoneFromJid (Some jid) = ''5511987654321''"
    then show "fst (fst (getContactInfo a jid)) = Some ''(11) 98765-4321''"
      using n s by simp
  next
    fix ddd rest
    assume "getPhoneFromJid (Some jid) = ''55'' @ ddd @ rest \<and> length ddd = 2 \<and> length rest = 9"
    then show "fst (fst (getContactInfo a jid)) =
        Some (''('' @ ddd @ '') '' @ take 5 rest @ ''-'' @ drop 5 rest)"
      using n formatNumber_9[of ddd rest] by simp
  next
    fix ddd rest
    assume "getPhoneFromJid (Some jid) = ''55'' @ ddd @ rest \<and> length ddd = 2 \<and> length rest = 8"
    then show "fst (fst (getContactInfo a jid)) =
        Some (''('' @ ddd @ '') '' @ take 4 rest @ ''-'' @ drop 4 rest)"
      using n formatNumber_8[of ddd rest] by simp
  next
    assume "\<not> (startsWith (getPhoneFromJid (Some jid)) ''55'' \<and>
              (length (getPhoneFromJid (Some jid)) = 12 \<or> length (getPhoneFromJid (Some jid)) = 13))"
    then show "fst (fst (getContactInfo a jid)) = Some (''+'' @ getPhoneFromJid (Some jid))"
      using n formatNumber_other[of "getPhoneFromJid (Some jid)"] by simp
  qed
qed

text \<open>
  Witness for C9: \<open>5511987654321@s.whatsapp.net\<close> on an account with empty stores.
\<close>

theorem unknown_number_fallback_witness:
  "\<not> truthy (lookupName acc0 ''5511987654321@s.whatsapp.net'') \<and>
   \<not> endsWith ''5511987654321@s.whatsapp.net'' ''@g.us'' \<and>
   \<not> endsWith ''5511987654321@s.whatsapp.net'' ''@lid'' \<and>
   \<not> endsWith ''5511987654321@s.whatsapp.net'' ''@newsletter'' \<and>
   getPhoneFromJid (Some ''5511987654321@s.whatsapp.net'') = ''5511987654321'' \<and>
   fst (fst (getContactInfo acc0 ''5511987654321@s.whatsapp.net'')) = Some ''(11) 98765-4321''"
proof -
  have h1: "\<not> truthy (lookupName acc0 ''5511987654321@s.whatsapp.net'')" by code_simp
  have h2: "\<not> endsWith ''5511987654321@s.whatsapp.net'' ''@g.us''" by code_simp
  have h3: "\<not> endsWith ''5511987654321@s.whatsapp.net'' ''@lid''" by code_simp
  have h4: "\<not> endsWith ''5511987654321@s.whatsapp.net'' ''@newsletter''" by code_simp
  have h5: "getPhoneFromJid (Some ''5511987654321@s.whatsapp.net'') = ''5511987654321''" by code_simp
  show ?thesis using unknown_number_fallback[OF h1 h2 h3 h4] h1 h2 h3 h4 h5 by simp
qed

section \<open>Properties of the ContactDirectory merges\<close>

lemma map_set_idem: "map_get m k = Some v \<Longrightarrow> map_set k v m = m"
  by (induction m) (auto simp: map_get_def split: if_splits)

lemma map_set_twice: "map_set k v (map_set k v m) = map_set k v m"
  by (simp add: map_set_idem map_get_set_same)

lemma map_set_pair_idem:
  "map_set k2 v (map_set k1 v (map_set k2 v (map_set k1 v m))) = map_set k2 v (map_set k1 v m)"
proof -
  let ?m = "map_set k2 v (map_set k1 v m)"
  have "map_get ?m k1 = Some v"
    by (cases "k1 = k2") (simp_all add: map_get_set_same map_get_set_other)
  then have "map_set k1 v ?m = ?m" by (rule map_set_idem)
  then show ?thesis by (simp add: map_set_idem map_get_set_same)
qed

lemma js_or_absorb: "js_or x (js_or x y) = js_or x y"
  by (simp add: js_or_def)

lemma js_or_falsy: "\<not> truthy x \<Longrightarrow> js_or x y = y"
  by (simp add: js_or_def)

lemma js_or_truthy: "truthy x \<Longrightarrow> js_or x y = x"
  by (simp add: js_or_def)

lemma upsertContact_idem: "upsertContact (upsertContact a c) c = upsertContact a c"
proof (cases "truthy (js_or (js_or (wc_name c) (wc_notify c)) (wc_verifiedName c))")
  case False
  then show ?thesis by (simp add: upsertContact_def Let_def)
next
  case True
  then obtain n where n: "js_or (js_or (wc_name c) (wc_notify c)) (wc_verifiedName c) = Some n"
    by (auto dest: truthy_Some)
  show ?thesis using True n
    by (simp add: upsertContact_def Let_def map_set_pair_idem)
qed

lemma updateContact_idem: "updateContact (updateContact a u) u = updateContact a u"
proof -
  let ?ex = "case map_get (contacts a) (Some (wc_id u)) of Some c \<Rightarrow> c | None \<Rightarrow> emptyContact"
  let ?name = "js_or (js_or (wc_name u) (wc_notify u)) (c_name ?ex)"
  show ?thesis
  proof (cases "truthy ?name")
    case False
    then show ?thesis by (simp add: updateContact_def Let_def)
  next
    case True
    let ?e' = "?ex\<lparr>c_name := ?name, c_notify := js_or (wc_notify u) (c_notify ?ex)\<rparr>"
    have a1: "updateContact a u = a\<lparr>contacts := map_set (Some (wc_id u)) ?e' (contacts a)\<rparr>"
      using True by (simp add: updateContact_def Let_def)
    have n2: "js_or (js_or (wc_name u) (wc_notify u)) ?name = ?name"
      by (simp add: js_or_def)
    have "updateContact (a\<lparr>contacts := map_set (Some (wc_id u)) ?e' (contacts a)\<rparr>) u
          = a\<lparr>contacts := map_set (Some (wc_id u)) ?e' (contacts a)\<rparr>"
      using True n2
      by (simp add: updateContact_def Let_def map_get_set_same js_or_absorb map_set_twice)
    with a1 show ?thesis by simp
  qed
qed

lemma upsertContact_stored:
  assumes "truthy (js_or (js_or (wc_name c) (wc_notify c)) (wc_verifiedName c))"
  shows "\<exists>d. map_get (contacts (upsertContact a c)) (Some (wc_id c)) = Some d \<and>
             map_get (contacts (upsertContact a c)) (normalizeJid (Some (wc_id c))) = Some d \<and>
             contactName d = js_or (js_or (wc_name c) (wc_notify c)) (wc_verifiedName c)"
proof -
  let ?name = "js_or (js_or (wc_name c) (wc_notify c)) (wc_verifiedName c)"
  let ?d = "\<lparr>c_name = js_or ?name None, c_notify = wc_notify c, c_verifiedName = wc_verifiedName c\<rparr>"
  obtain n where n: "?name = Some n" using assms by (auto dest: truthy_Some)
  have c: "contacts (upsertContact a c) =
     map_set (normalizeJid (Some (wc_id c))) ?d (map_set (Some (wc_id c)) ?d (contacts a))"
    using assms n by (simp add: upsertContact_def Let_def)
  have g1: "map_get (contacts (upsertContact a c)) (Some (wc_id c)) = Some ?d"
    unfolding c
    by (cases "Some (wc_id c) = normalizeJid (Some (wc_id c))")
       (simp_all add: map_get_set_same map_get_set_other)
  have g2: "map_get (contacts (upsertContact a c)) (normalizeJid (Some (wc_id c))) = Some ?d"
    unfolding c by (simp add: map_get_set_same)
  have "contactName ?d = ?name" using assms
    by (auto simp: contactName_def js_or_def)
  with g1 g2 show ?thesis by blast
qed

lemma updateContact_stored:
  assumes "truthy (js_or (js_or (wc_name u) (wc_notify u)) (c_name ex))"
    and "ex = (case map_get (contacts a) (Some (wc_id u)) of Some c \<Rightarrow> c | None \<Rightarrow> emptyContact)"
  shows "map_get (contacts (updateContact a u)) (Some (wc_id u)) =
           Some (ex\<lparr>c_name := js_or (js_or (wc_name u) (wc_notify u)) (c_name ex),
                     c_notify := js_or (wc_notify u) (c_notify ex)\<rparr>)"
  using assms by (simp add: updateContact_def Let_def map_get_set_same)


text \<open>
  Claim C3, as the code has it. Merging the same contact record twice, by
  \<open>contacts.upsert\<close> or by \<open>contacts.update\<close>, leaves the account as merging it once.
  Within one upserted record the stored entry, under the raw and the canonical id,
  resolves with the precedence explicit name, then notify name, then verified name.
  Across updates the update wins: a name or, failing that, a notify name carried by
  \<open>contacts.update\<close> replaces the stored name, and the stored entry is kept as it is
  only when the update carries neither.
\<close>

theorem contact_merge:
  "upsertContact (upsertContact a c) c = upsertContact a c \<and>
   updateContact (updateContact a u) u = updateContact a u \<and>
   (truthy (js_or (js_or (wc_name c) (wc_notify c)) (wc_verifiedName c)) \<longrightarrow>
     (\<exists>d. map_get (contacts (upsertContact a c)) (Some (wc_id c)) = Some d \<and>
          map_get (contacts (upsertContact a c)) (normalizeJid (Some (wc_id c))) = Some d \<and>
          (truthy (wc_name c) \<longrightarrow> contactName d = wc_name c) \<and>
          (\<not> truthy (wc_name c) \<and> truthy (wc_notify c) \<longrightarrow> contactName d = wc_notify c) \<and>
          (\<not> truthy (wc_name c) \<and> \<not> truthy (wc_notify c) \<longrightarrow> contactName d = wc_verifiedName c))) \<and>
   (map_get (contacts a) (Some (wc_id u)) = Some e \<and> truthy (c_name e) \<longrightarrow>
     (\<exists>e'. map_get (contacts (updateContact a u)) (Some (wc_id u)) = Some e' \<and>
          (truthy (wc_name u) \<longrightarrow> c_name e' = wc_name u) \<and>
          (\<not> truthy (wc_name u) \<and> truthy (wc_notify u) \<longrightarrow> c_name e' = wc_notify u) \<and>
          (\<not> truthy (wc_name u) \<and> \<not> truthy (wc_notify u) \<longrightarrow> e' = e)))"
proof (intro conjI impI)
  show "upsertContact (upsertContact a c) c = upsertContact a c" by (rule upsertContact_idem)
  show "updateContact (updateContact a u) u = updateContact a u" by (rule updateContact_idem)
next
  assume t: "truthy (js_or (js_or (wc_name c) (wc_notify c)) (wc_verifiedName c))"
  from upsertContact_stored[OF t, of a] obtain d where
    d: "map_get (contacts (upsertContact a c)) (Some (wc_id c)) = Some d"
       "map_get (contacts (upsertContact a c)) (normalizeJid (Some (wc_id c))) = Some d"
       "contactName d = js_or (js_or (wc_name c) (wc_notify c)) (wc_verifiedName c)"
    by blast
  have "truthy (wc_name c) \<longrightarrow> contactName d = wc_name c"
    "\<not> truthy (wc_name c) \<and> truthy (wc_notify c) \<longrightarrow> contactName d = wc_notify c"
    "\<not> truthy (wc_name c) \<and> \<not> truthy (wc_notify c) \<longrightarrow> contactName d = wc_verifiedName c"
    using d(3) by (simp_all add: js_or_def)
  with d(1,2) show "\<exists>d. map_get (contacts (upsertContact a c)) (Some (wc_id c)) = Some d \<and>
          map_get (contacts (upsertContact a c)) (normalizeJid (Some (wc_id c))) = Some d \<and>
          (truthy (wc_name c) \<longrightarrow> contactName d = wc_name c) \<and>
          (\<not> truthy (wc_name c) \<and> truthy (wc_notify c) \<longrightarrow> contactName d = wc_notify c) \<and>
          (\<not> truthy (wc_name c) \<and> \<not> truthy (wc_notify c) \<longrightarrow> contactName d = wc_verifiedName c)"
    by blast
next
  assume h: "map_get (contacts a) (Some (wc_id u)) = Some e \<and> truthy (c_name e)"
  let ?e' = "e\<lparr>c_name := js_or (js_or (wc_name u) (wc_notify u)) (c_name e),
                c_notify := js_or (wc_notify u) (c_notify e)\<rparr>"
  have t: "truthy (js_or (js_or (wc_name u) (wc_notify u)) (c_name e))"
    using h by (simp add: js_or_def)
  have g: "map_get (contacts (updateContact a u)) (Some (wc_id u)) = Some ?e'"
    using updateContact_stored[OF t, of a] h by simp
  have "truthy (wc_name u) \<longrightarrow> c_name ?e' = wc_name u"
    "\<not> truthy (wc_name u) \<and> truthy (wc_notify u) \<longrightarrow> c_name ?e' = wc_notify u"
    "\<not> truthy (wc_name u) \<and> \<not> truthy (wc_notify u) \<longrightarrow> ?e' = e"
    by (simp_all add: js_or_def)
  with g show "\<exists>e'. map_get (contacts (updateContact a u)) (Some (wc_id u)) = Some e' \<and>
          (truthy (wc_name u) \<longrightarrow> c_name e' = wc_name u) \<and>
          (\<not> truthy (wc_name u) \<and> truthy (wc_notify u) \<longrightarrow> c_name e' = wc_notify u) \<and>
          (\<not> truthy (wc_name u) \<and> \<not> truthy (wc_notify u) \<longrightarrow> e' = e)"
    by blast
qed

text \<open>
  Witness for C3: the explicit name \<open>Alice\<close> is stored, and is kept by an update that
  carries only a verified name.
\<close>

theorem contact_merge_witness:
  "truthy (js_or (js_or (wc_name aliceContact) (wc_notify aliceContact)) (wc_verifiedName aliceContact)) \<and>
   map_get (contacts (upsertContact acc0 aliceContact)) (Some ''5511999@s.whatsapp.net'')
     = Some \<lparr>c_name = Some ''Alice'', c_notify = None, c_verifiedName = None\<rparr> \<and>
   truthy (c_name \<lparr>c_name = Some ''Alice'', c_notify = None, c_verifiedName = None\<rparr>) \<and>
   \<not> truthy (wc_name verifiedUpdate) \<and> \<not> truthy (wc_notify verifiedUpdate) \<and>
   map_get (contacts (updateContact (upsertContact acc0 aliceContact) verifiedUpdate))
       (Some ''5511999@s.whatsapp.net'')
     = Some \<lparr>c_name = Some ''Alice'', c_notify = None, c_verifiedName = None\<rparr> \<and>
   upsertContact (upsertContact acc0 aliceContact) aliceContact = upsertContact acc0 aliceContact"
proof -
  let ?e = "\<lparr>c_name = Some ''Alice'', c_notify = None, c_verifiedName = None\<rparr>"
  have h1: "truthy (js_or (js_or (wc_name aliceContact) (wc_notify aliceContact)) (wc_verifiedName aliceContact))"
    by code_simp
  have h2: "map_get (contacts (upsertContact acc0 aliceContact)) (Some ''5511999@s.whatsapp.net'') = Some ?e"
    by code_simp
  have h3: "truthy (c_name ?e)" by code_simp
  have h4: "\<not> truthy (wc_name verifiedUpdate)" "\<not> truthy (wc_notify verifiedUpdate)"
    "wc_id verifiedUpdate = ''5511999@s.whatsapp.net''"
    by (simp_all add: verifiedUpdate_def truthy_def)
  show ?thesis
    using contact_merge[of "upsertContact acc0 aliceContact" aliceContact verifiedUpdate ?e]
      contact_merge[of acc0 aliceContact verifiedUpdate ?e] h1 h2 h3 h4
    by auto
qed

text \<open>
  Counterexample to C3 as stated: the directory holds the explicit name \<open>Alice\<close>; a
  later partial update with only the notify name \<open>Bob\<close> replaces it, and the contact
  resolves to \<open>Bob\<close>.
\<close>

theorem contact_merge_counterexample:
  "map_get (contacts (snd (on_contacts_upsert acc0 [aliceContact]))) (Some ''5511999@s.whatsapp.net'')
     = Some \<lparr>c_name = Some ''Alice'', c_notify = None, c_verifiedName = None\<rparr> \<and>
   map_get (contacts (snd (on_contacts_update (snd (on_contacts_upsert acc0 [aliceContact])) [bobUpdate])))
       (Some ''5511999@s.whatsapp.net'')
     = Some \<lparr>c_name = Some ''Bob'', c_notify = Some ''Bob'', c_verifiedName = None\<rparr> \<and>
   fst (fst (getContactInfo
       (snd (on_contacts_update (snd (on_contacts_upsert acc0 [aliceContact])) [bobUpdate]))
       ''5511999@s.whatsapp.net'')) = Some ''Bob''"
  by code_simp

section \<open>Properties of the MessageStore append paths\<close>

text \<open>
  The guarded append of \<open>messages.upsert\<close> and \<open>messaging-history.set\<close>: the log
  after the append, a second append of the same message changes nothing, and distinct
  message ids stay distinct.
\<close>

lemma map_has_set: "map_has (map_set k v m) k"
  by (simp add: map_has_def map_get_set_same[unfolded map_get_def])

lemma find_append_new: "find P xs = None \<Longrightarrow> P y \<Longrightarrow> find P (xs @ [y]) = Some y"
  by (induction xs) (auto split: if_splits)

lemma appendMessage_log:
  "map_get (messages (appendMessage a msg)) (remoteJid msg) =
     Some (let existing = (case map_get (messages a) (remoteJid msg) of Some l \<Rightarrow> l | None \<Rightarrow> [])
           in if find (\<lambda>m. msgId m = msgId msg) existing = None then existing @ [msg] else existing)"
proof (cases "map_get (messages a) (remoteJid msg)")
  case None
  then have "\<not> map_has (messages a) (remoteJid msg)" by (simp add: map_has_def map_get_def)
  with None show ?thesis
    by (simp add: appendMessage_def Let_def map_get_set_same)
next
  case (Some l)
  then have "map_has (messages a) (remoteJid msg)" by (simp add: map_has_def map_get_def)
  with Some show ?thesis
    by (simp add: appendMessage_def Let_def map_get_set_same)
qed

lemma appendMessage_twice_log:
  "map_get (messages (appendMessage (appendMessage a msg) msg)) (remoteJid msg)
     = map_get (messages (appendMessage a msg)) (remoteJid msg)"
proof -
  let ?existing = "case map_get (messages a) (remoteJid msg) of Some l \<Rightarrow> l | None \<Rightarrow> []"
  show ?thesis
  proof (cases "find (\<lambda>m. msgId m = msgId msg) ?existing = None")
    case True
    then have "find (\<lambda>m. msgId m = msgId msg) (?existing @ [msg]) = Some msg"
      by (rule find_append_new) simp
    then show ?thesis using True
      by (simp add: appendMessage_log[of "appendMessage a msg"] appendMessage_log[of a] Let_def)
  next
    case False
    then show ?thesis
      by (simp add: appendMessage_log[of "appendMessage a msg"] appendMessage_log[of a] Let_def)
  qed
qed

lemma appendMessage_distinct:
  assumes "distinct (map msgId (case map_get (messages a) (remoteJid msg) of Some l \<Rightarrow> l | None \<Rightarrow> []))"
  shows "\<exists>l. map_get (messages (appendMessage a msg)) (remoteJid msg) = Some l \<and> distinct (map msgId l)"
proof -
  define ex where "ex = (case map_get (messages a) (remoteJid msg) of Some l \<Rightarrow> l | None \<Rightarrow> [])"
  have d: "distinct (map msgId ex)" using assms by (simp add: ex_def)
  have g: "map_get (messages (appendMessage a msg)) (remoteJid msg) =
            Some (if find (\<lambda>m. msgId m = msgId msg) ex = None then ex @ [msg] else ex)"
    by (simp add: appendMessage_log Let_def ex_def)
  show ?thesis
  proof (cases "find (\<lambda>m. msgId m = msgId msg) ex = None")
    case True
    then have "msgId msg \<notin> set (map msgId ex)"
      by (auto simp: find_None_iff)
    with d True g show ?thesis by simp
  next
    case False
    with d g show ?thesis by simp
  qed
qed

text \<open>
  Claim C4, evaluated on the code. A message id that arrives twice by
  \<open>messages.upsert\<close> or by \<open>messaging-history.set\<close> is stored once. The
  \<open>send-message\<close> path pushes the sent message without the check: when the chat's log
  already holds the id (the gateway delivered the account's own message first), the
  log holds it twice afterwards.
\<close>

theorem sent_message_duplicated:
  "logOf (world1 (snd (on_messages_upsert ext0 acc1 [sentMsg, sentMsg] Append)))
      ''acc_1'' ''5511999@s.whatsapp.net'' = [''A1''] \<and>
   logOf (world1 (snd (on_history_set acc1 [] [sentMsg, sentMsg])))
      ''acc_1'' ''5511999@s.whatsapp.net'' = [''A1''] \<and>
   logOf (world1 (snd (on_messages_upsert ext0 acc1 [sentMsg] Append)))
      ''acc_1'' ''5511999@s.whatsapp.net'' = [''A1''] \<and>
   logOf (snd (on_send_message ext0 (world1 (snd (on_messages_upsert ext0 acc1 [sentMsg] Append)))
                 ''acc_1'' ''5511999@s.whatsapp.net'' (Some ''oi'') (Some ''text'') None None None))
      ''acc_1'' ''5511999@s.whatsapp.net'' = [''A1'', ''A1'']"
  by code_simp

section \<open>Properties of terminal logout\<close>

text \<open>The \<open>logout-account\<close> command clears the four stores and the phone number.\<close>

lemma logout_account_clears:
  assumes "map_get (accounts w) accountId = Some a" and "sock a = Some g"
  shows "\<exists>a'. map_get (accounts (snd (on_logout_account w accountId))) accountId = Some a' \<and>
           chats a' = [] \<and> messages a' = [] \<and> contacts a' = [] \<and> profilePics a' = [] \<and>
           phoneNumber a' = None"
  using assms
  by (simp add: on_logout_account_def Let_def saveAccountsToFile_def purgeAuthFolder_def
      map_get_set_same)

text \<open>
  Claim C2, evaluated on the code. An account with one chat, one message log, one
  contact and one cached picture is logged out. The \<open>close\<close> branch of
  \<open>connection.update\<close> with the logged-out code empties the credential folder and
  saves the record without the phone number, but all four stores keep their entries;
  the \<open>logout-account\<close> command does the same and clears the four stores.
\<close>

theorem logged_out_close_keeps_stores:
  "storeSizes (world1 (snd (on_messages_upsert ext0 acc1 [inboundMsg] Notify))) ''acc_1'' = (1, 1, 1, 1) \<and>
   storeSizes (snd (on_connection_update 401 ext0
       (world1 (snd (on_messages_upsert ext0 acc1 [inboundMsg] Notify))) ''acc_1'' closeLoggedOut))
     ''acc_1'' = (1, 1, 1, 1) \<and>
   authFolders (snd (on_connection_update 401 ext0
       (world1 (snd (on_messages_upsert ext0 acc1 [inboundMsg] Notify))) ''acc_1'' closeLoggedOut))
     = [(''acc_1'', [])] \<and>
   accountsFile (snd (on_connection_update 401 ext0
       (world1 (snd (on_messages_upsert ext0 acc1 [inboundMsg] Notify))) ''acc_1'' closeLoggedOut))
     = Some [\<lparr>sa_id = ''acc_1'', sa_name = ''Conta'', sa_phoneNumber = None\<rparr>] \<and>
   storeSizes (snd (on_logout_account
       (world1 (snd (on_messages_upsert ext0 acc1 [inboundMsg] Notify))) ''acc_1''))
     ''acc_1'' = (0, 0, 0, 0) \<and>
   authFolders (snd (on_logout_account
       (world1 (snd (on_messages_upsert ext0 acc1 [inboundMsg] Notify))) ''acc_1''))
     = [(''acc_1'', [])] \<and>
   accountsFile (snd (on_logout_account
       (world1 (snd (on_messages_upsert ext0 acc1 [inboundMsg] Notify))) ''acc_1''))
     = Some [\<lparr>sa_id = ''acc_1'', sa_name = ''Conta'', sa_phoneNumber = None\<rparr>]"
  by code_simp

section \<open>Properties of get-messages\<close>

lemma map_values_set_single: "map_get m k = Some v \<Longrightarrow> map fst (map_set k v' m) = map fst m"
  by (induction m) (auto simp: map_get_def split: if_splits)

lemma getMessages_chats:
  "chats (snd (getMessages x accountId a jid)) =
     (case map_get (chats a) jid of
        Some c \<Rightarrow> map_set jid (c\<lparr>unreadCount := Some 0\<rparr>) (chats a)
      | None \<Rightarrow> chats a)"
  by (simp add: getMessages_def Let_def case_prod_beta getContactInfo_frame split: option.splits)

lemma on_get_messages_account:
  assumes "map_get (accounts w) accountId = Some a" and "connectionState a = Connected"
  shows "map_get (accounts (snd (on_get_messages x w accountId jid))) accountId
           = Some (snd (getMessages x accountId a jid))"
  using assms by (simp add: on_get_messages_def Let_def case_prod_beta map_get_set_same)

lemma get_messages_rejected:
  assumes "map_get (accounts w) accountId = None \<or>
           (\<exists>a. map_get (accounts w) accountId = Some a \<and> connectionState a \<noteq> Connected)"
  shows "on_get_messages x w accountId jid = ([(Socket, Error Conta_nao_conectada)], w)"
  using assms by (auto simp: on_get_messages_def)

text \<open>
  Claim C10. For a command the handler accepts (the account is registered and
  connected; any other command is answered with an error and changes nothing, as
  \<open>get_messages_rejected\<close> says): when the chat is in the chat store its unread
  counter is zero afterwards, its other fields, every other chat and the order of the
  store are as before; when the chat id is not in the chat store, the chat store is
  unchanged.
\<close>

theorem fetch_messages_marks_read:
  assumes "map_get (accounts w) accountId = Some a" and "connectionState a = Connected"
  shows "\<exists>a'. map_get (accounts (snd (on_get_messages x w accountId jid))) accountId = Some a' \<and>
           (\<forall>c. map_get (chats a) jid = Some c \<longrightarrow>
                map_get (chats a') jid = Some (c\<lparr>unreadCount := Some 0\<rparr>) \<and>
                (\<forall>j. j \<noteq> jid \<longrightarrow> map_get (chats a') j = map_get (chats a) j) \<and>
                map fst (chats a') = map fst (chats a)) \<and>
           (map_get (chats a) jid = None \<longrightarrow> chats a' = chats a)"
proof (intro exI conjI allI impI)
  show "map_get (accounts (snd (on_get_messages x w accountId jid))) accountId
          = Some (snd (getMessages x accountId a jid))"
    using assms by (rule on_get_messages_account)
next
  fix c assume c: "map_get (chats a) jid = Some c"
  then have ch: "chats (snd (getMessages x accountId a jid))
                   = map_set jid (c\<lparr>unreadCount := Some 0\<rparr>) (chats a)"
    by (simp add: getMessages_chats)
  show "map_get (chats (snd (getMessages x accountId a jid))) jid = Some (c\<lparr>unreadCount := Some 0\<rparr>)"
    unfolding ch by (rule map_get_set_same)
  show "map fst (chats (snd (getMessages x accountId a jid))) = map fst (chats a)"
    unfolding ch using c by (rule map_values_set_single)
  fix j assume "j \<noteq> jid"
  then show "map_get (chats (snd (getMessages x accountId a jid))) j = map_get (chats a) j"
    unfolding ch by (rule map_get_set_other)
next
  assume "map_get (chats a) jid = None"
  then show "chats (snd (getMessages x accountId a jid)) = chats a"
    by (simp add: getMessages_chats)
qed

text \<open>
  Witness for C10: after one inbound live message the chat has one unread message;
  after \<open>get-messages\<close> for that chat it has none.
\<close>

theorem fetch_messages_marks_read_witness:
  "map_get (accounts (world1 (snd (on_messages_upsert ext0 acc1 [inboundMsg] Notify)))) ''acc_1''
     = Some (snd (on_messages_upsert ext0 acc1 [inboundMsg] Notify)) \<and>
   connectionState (snd (on_messages_upsert ext0 acc1 [inboundMsg] Notify)) = Connected \<and>
   map_option unreadCount
     (map_get (chats (snd (on_messages_upsert ext0 acc1 [inboundMsg] Notify))) ''5511999@s.whatsapp.net'')
     = Some (Some 1) \<and>
   (\<exists>a'. map_get (accounts (snd (on_get_messages ext0
              (world1 (snd (on_messages_upsert ext0 acc1 [inboundMsg] Notify)))
              ''acc_1'' ''5511999@s.whatsapp.net''))) ''acc_1'' = Some a' \<and>
         map_option unreadCount (map_get (chats a') ''5511999@s.whatsapp.net'') = Some (Some 0))"
proof -
  let ?a = "snd (on_messages_upsert ext0 acc1 [inboundMsg] Notify)"
  have h1: "map_get (accounts (world1 ?a)) ''acc_1'' = Some ?a"
    by (simp add: world1_def map_get_def)
  have h2: "connectionState ?a = Connected" by code_simp
  have h3: "map_option unreadCount (map_get (chats ?a) ''5511999@s.whatsapp.net'') = Some (Some 1)"
    by code_simp
  then obtain c where c: "map_get (chats ?a) ''5511999@s.whatsapp.net'' = Some c"
    by (cases "map_get (chats ?a) ''5511999@s.whatsapp.net''") auto
  from fetch_messages_marks_read[OF h1 h2, of ext0 "''5511999@s.whatsapp.net''"]
  obtain a' where a1: "map_get (accounts (snd (on_get_messages ext0 (world1 ?a)
              ''acc_1'' ''5511999@s.whatsapp.net''))) ''acc_1'' = Some a'"
    and a2: "\<forall>c. map_get (chats ?a) ''5511999@s.whatsapp.net'' = Some c \<longrightarrow>
                map_get (chats a') ''5511999@s.whatsapp.net'' = Some (c\<lparr>unreadCount := Some 0\<rparr>) \<and>
                (\<forall>j. j \<noteq> ''5511999@s.whatsapp.net'' \<longrightarrow> map_get (chats a') j = map_get (chats ?a) j) \<and>
                map fst (chats a') = map fst (chats ?a)"
    by (elim exE conjE)
  from mp[OF spec[OF a2, of c] c]
  have a3: "map_get (chats a') ''5511999@s.whatsapp.net'' = Some (c\<lparr>unreadCount := Some 0\<rparr>)"
    by (rule conjunct1)
  have "map_option unreadCount (map_get (chats a') ''5511999@s.whatsapp.net'') = Some (Some 0)"
    using a3 by simp
  with a1 h1 h2 h3 show ?thesis by (intro conjI exI)
qed

section \<open>Properties of get-history\<close>

lemma formatMessage_timestamp: "fm_timestamp (formatMessage x m b) = messageTimestamp m"
  by (simp add: formatMessage_def Let_def split: option.splits)

lemma formatMessage_id: "fm_id (formatMessage x m b) = msgId m"
  by (simp add: formatMessage_def Let_def split: option.splits)

lemma effective_limit:
  "numOr0 (js_orNum limit (Some 100)) = (case limit of Some l \<Rightarrow> if l = 0 then 100 else l | None \<Rightarrow> 100)"
  by (simp add: numOr0_def js_orNum_def truthyNum_def split: option.splits)

lemma getHistory_eq:
  "getHistory x accountId a jid now (Some d) limit =
     [(Socket, History accountId jid
        (sortByTimestamp x (map (\<lambda>m. formatMessage x m False)
           (sliceNeg (case limit of Some l \<Rightarrow> if l = 0 then 100 else l | None \<Rightarrow> 100)
              (filter (\<lambda>m. case messageTimestamp m of Num t \<Rightarrow> now - d * 86400 \<le> t
                            | NumNull \<Rightarrow> now - d * 86400 \<le> 0 | NumUndefined \<Rightarrow> False)
                 (case map_get (messages a) jid of Some l \<Rightarrow> l | None \<Rightarrow> [])))))
        (length (filter (\<lambda>m. case messageTimestamp m of Num t \<Rightarrow> now - d * 86400 \<le> t
                            | NumNull \<Rightarrow> now - d * 86400 \<le> 0 | NumUndefined \<Rightarrow> False)
                 (case map_get (messages a) jid of Some l \<Rightarrow> l | None \<Rightarrow> []))))]"
proof -
  have p: "\<And>msg. notBefore (messageTimestamp msg) (map_option (\<lambda>d. now - d * 24 * 60 * 60) (Some d))
         = (case messageTimestamp msg of Num t \<Rightarrow> now - d * 86400 \<le> t
            | NumNull \<Rightarrow> now - d * 86400 \<le> 0 | NumUndefined \<Rightarrow> False)"
    by (auto simp: notBefore_def split: js_number.splits)
  show ?thesis
    unfolding getHistory_def Let_def effective_limit p by (rule refl)
qed

lemma on_get_history_connected:
  assumes "map_get (accounts w) accountId = Some a" and "connectionState a = Connected"
  shows "on_get_history x w accountId jid now days limit
           = (getHistory x accountId a jid now days limit, w)"
  using assms by (simp add: on_get_history_def)

lemma sortByTimestamp_defined:
  assumes "list_all (\<lambda>m. fm_timestamp m \<noteq> NumUndefined) ms"
  shows "sortByTimestamp x ms = sort_key (\<lambda>m. numVal (fm_timestamp m)) ms"
  using assms by (simp add: sortByTimestamp_def)

lemma sorted_take_drop_le:
  assumes "sorted (map f xs)" "u \<in> set (take k xs)" "v \<in> set (drop k xs)"
  shows "f u \<le> f v"
proof -
  have "sorted (map f (take k xs) @ map f (drop k xs))"
    using assms(1) by (simp flip: map_append)
  then show ?thesis using assms(2,3) by (auto simp: sorted_append)
qed

text \<open>
  Claim C8, as the code has it. For an accepted command (account registered and
  connected) with a day window \<open>d\<close>, the bound is \<open>since = now - d * 86400\<close> and
  the count \<open>n\<close> is the command's limit, or 100 when the limit is absent or zero. A
  stored message matches when its timestamp is at or after \<open>since\<close>, a \<open>null\<close>
  timestamp counting as 0 and a missing one never matching. For a positive \<open>n\<close> the
  handler emits one history page and changes nothing: its total is the number of
  matching messages; its messages are exactly the last \<open>n\<close> of those in stored order
  (all of them when there are fewer), formatted, in ascending timestamp order; when
  the log is stored in timestamp order these are the most recent ones. With
  \<open>d = 1\<close> and a log of one message from \<open>now\<close> and one from two days before,
  the page holds only the first and the total is 1.
\<close>

theorem history_window:
  fixes now d :: int and limit :: "int option"
  defines "since \<equiv> now - d * 86400"
    and "n \<equiv> (case limit of Some l \<Rightarrow> if l = 0 then 100 else l | None \<Rightarrow> 100)"
  assumes acc: "map_get (accounts w) accountId = Some a" and con: "connectionState a = Connected"
    and stored: "stored = (case map_get (messages a) jid of Some l \<Rightarrow> l | None \<Rightarrow> [])"
    and matched: "matched = filter (\<lambda>m. case messageTimestamp m of Num t \<Rightarrow> since \<le> t
                                     | NumNull \<Rightarrow> since \<le> 0 | NumUndefined \<Rightarrow> False) stored"
    and pos: "0 < n"
  shows "\<exists>msgs. on_get_history x w accountId jid now (Some d) limit
                  = ([(Socket, History accountId jid msgs (length matched))], w) \<and>
           mset msgs = mset (map (\<lambda>m. formatMessage x m False) (drop (length matched - nat n) matched)) \<and>
           sorted (map (\<lambda>m. numVal (fm_timestamp m)) msgs) \<and>
           length msgs = min (nat n) (length matched) \<and>
           (\<forall>m\<in>set msgs. fm_timestamp m \<noteq> NumUndefined \<and> since \<le> numVal (fm_timestamp m)) \<and>
           (sorted (map (\<lambda>m. numVal (messageTimestamp m)) matched) \<longrightarrow>
              (\<forall>u\<in>set (take (length matched - nat n) matched). \<forall>v\<in>set msgs.
                  numVal (messageTimestamp u) \<le> numVal (fm_timestamp v))) \<and>
           (\<forall>m1 m2. stored = [m1, m2] \<and> messageTimestamp m1 = Num now \<and>
                messageTimestamp m2 = Num (now - 2 * 86400) \<and> d = 1 \<longrightarrow>
              msgs = [formatMessage x m1 False] \<and> length matched = 1)"
proof -
  let ?fmt = "\<lambda>m. formatMessage x m False"
  let ?kept = "drop (length matched - nat n) matched"
  let ?msgs = "sort_key (\<lambda>m. numVal (fm_timestamp m)) (map ?fmt ?kept)"
  have sl: "sliceNeg n matched = ?kept" using pos by (simp add: sliceNeg_def)
  have ok: "\<And>v. v \<in> set matched \<Longrightarrow>
              messageTimestamp v \<noteq> NumUndefined \<and> since \<le> numVal (messageTimestamp v)"
    unfolding matched by (auto simp: numVal_def split: js_number.splits)
  have kept_sub: "set ?kept \<subseteq> set matched" by (meson set_drop_subset)
  have def: "list_all (\<lambda>m. fm_timestamp m \<noteq> NumUndefined) (map ?fmt ?kept)"
    using ok kept_sub by (auto simp: list_all_iff formatMessage_timestamp)
  have ev: "on_get_history x w accountId jid now (Some d) limit
              = ([(Socket, History accountId jid ?msgs (length matched))], w)"
  proof -
    have "getHistory x accountId a jid now (Some d) limit
            = [(Socket, History accountId jid (sortByTimestamp x (map ?fmt (sliceNeg n matched)))
                          (length matched))]"
      unfolding getHistory_eq matched stored since_def n_def by (rule refl)
    then show ?thesis
      unfolding on_get_history_connected[OF acc con] sl sortByTimestamp_defined[OF def] by simp
  qed
  have m: "mset ?msgs = mset (map ?fmt ?kept)" by simp
  have s: "sorted (map (\<lambda>m. numVal (fm_timestamp m)) ?msgs)" by (rule sorted_sort_key)
  have l: "length ?msgs = min (nat n) (length matched)" by simp
  have st: "set ?msgs = ?fmt ` set ?kept" by simp
  have t: "\<forall>m\<in>set ?msgs. fm_timestamp m \<noteq> NumUndefined \<and> since \<le> numVal (fm_timestamp m)"
  proof
    fix m assume "m \<in> set ?msgs"
    then obtain v where v: "v \<in> set ?kept" "m = ?fmt v" using st by auto
    then have "v \<in> set matched" using kept_sub by blast
    from ok[OF this] show "fm_timestamp m \<noteq> NumUndefined \<and> since \<le> numVal (fm_timestamp m)"
      using v(2) by (simp add: formatMessage_timestamp)
  qed
  have r: "sorted (map (\<lambda>m. numVal (messageTimestamp m)) matched) \<longrightarrow>
              (\<forall>u\<in>set (take (length matched - nat n) matched). \<forall>v\<in>set ?msgs.
                  numVal (messageTimestamp u) \<le> numVal (fm_timestamp v))"
  proof (intro impI ballI)
    fix u v
    assume so: "sorted (map (\<lambda>m. numVal (messageTimestamp m)) matched)"
      and u: "u \<in> set (take (length matched - nat n) matched)" and v: "v \<in> set ?msgs"
    from v st obtain v' where v': "v' \<in> set ?kept" "v = ?fmt v'" by auto
    from sorted_take_drop_le[OF so u v'(1)] v'(2)
    show "numVal (messageTimestamp u) \<le> numVal (fm_timestamp v)"
      by (simp add: formatMessage_timestamp)
  qed
  have sc: "\<forall>m1 m2. stored = [m1, m2] \<and> messageTimestamp m1 = Num now \<and>
                messageTimestamp m2 = Num (now - 2 * 86400) \<and> d = 1 \<longrightarrow>
              ?msgs = [formatMessage x m1 False] \<and> length matched = 1"
  proof (intro allI impI)
    fix m1 m2
    assume h: "stored = [m1, m2] \<and> messageTimestamp m1 = Num now \<and>
                messageTimestamp m2 = Num (now - 2 * 86400) \<and> d = 1"
    then have mm: "matched = [m1]" unfolding matched since_def by simp
    have "?kept = [m1]" unfolding mm using pos by simp
    then show "?msgs = [formatMessage x m1 False] \<and> length matched = 1"
      using mm by simp
  qed
  from ev m s l t r sc show ?thesis by (intro exI[of _ ?msgs] conjI)
qed

text \<open>
  Witness for C8: the scenario at \<open>now = 1700000000\<close> with no limit given; and a log
  of that message and one with a \<open>null\<close> timestamp, which matches only when the
  window starts at or before time 0.
\<close>

theorem history_window_witness:
  "map_get (accounts (historyWorld [nowMsg, oldMsg])) ''acc_1''
      = Some (acc1\<lparr>messages := [(''5511999@s.whatsapp.net'', [nowMsg, oldMsg])]\<rparr>) \<and>
   connectionState (acc1\<lparr>messages := [(''5511999@s.whatsapp.net'', [nowMsg, oldMsg])]\<rparr>) = Connected \<and>
   on_get_history ext0 (historyWorld [nowMsg, oldMsg]) ''acc_1'' ''5511999@s.whatsapp.net''
       1700000000 (Some 1) None
     = ([(Socket, History ''acc_1'' ''5511999@s.whatsapp.net'' [formatMessage ext0 nowMsg False] 1)],
        historyWorld [nowMsg, oldMsg]) \<and>
   historyIds (fst (on_get_history ext0 (historyWorld [nowMsg, nullMsg]) ''acc_1''
       ''5511999@s.whatsapp.net'' 1700000000 (Some 1) None)) = [([''N1''], 1)] \<and>
   historyIds (fst (on_get_history ext0 (historyWorld [nowMsg, nullMsg]) ''acc_1''
       ''5511999@s.whatsapp.net'' 1700000000 (Some 36500) None)) = [([''Z1'', ''N1''], 2)]"
proof -
  let ?a = "acc1\<lparr>messages := [(''5511999@s.whatsapp.net'', [nowMsg, oldMsg])]\<rparr>"
  have h1: "map_get (accounts (historyWorld [nowMsg, oldMsg])) ''acc_1'' = Some ?a"
    by (simp add: historyWorld_def world1_def map_get_def)
  have h2: "connectionState ?a = Connected" by (simp add: acc1_def acc0_def)
  have h3: "[nowMsg, oldMsg] = (case map_get (messages ?a) ''5511999@s.whatsapp.net'' of
                                  Some l \<Rightarrow> l | None \<Rightarrow> [])"
    by (simp add: map_get_def)
  have h4: "messageTimestamp nowMsg = Num 1700000000"
    "messageTimestamp oldMsg = Num (1700000000 - 2 * 86400)"
    by (simp_all add: nowMsg_def oldMsg_def)
  have n1: "historyIds (fst (on_get_history ext0 (historyWorld [nowMsg, nullMsg]) ''acc_1''
       ''5511999@s.whatsapp.net'' 1700000000 (Some 1) None)) = [([''N1''], 1)]"
    by code_simp
  have n2: "historyIds (fst (on_get_history ext0 (historyWorld [nowMsg, nullMsg]) ''acc_1''
       ''5511999@s.whatsapp.net'' 1700000000 (Some 36500) None)) = [([''Z1'', ''N1''], 2)]"
    by code_simp
  from history_window[OF h1 h2 h3 refl, where limit = None and now = 1700000000 and d = 1
      and x = ext0]
  obtain msgs where e: "on_get_history ext0 (historyWorld [nowMsg, oldMsg]) ''acc_1''
        ''5511999@s.whatsapp.net'' 1700000000 (Some 1) None
      = ([(Socket, History ''acc_1'' ''5511999@s.whatsapp.net'' msgs
            (length (filter (\<lambda>m. case messageTimestamp m of Num t \<Rightarrow> 1700000000 - 1 * 86400 \<le> t
                                    | NumNull \<Rightarrow> 1700000000 - 1 * 86400 \<le> (0::int)
                                    | NumUndefined \<Rightarrow> False) [nowMsg, oldMsg])))],
         historyWorld [nowMsg, oldMsg])"
    and sc: "\<forall>m1 m2. [nowMsg, oldMsg] = [m1, m2] \<and> messageTimestamp m1 = Num 1700000000 \<and>
                messageTimestamp m2 = Num (1700000000 - 2 * 86400) \<and> (1::int) = 1 \<longrightarrow>
              msgs = [formatMessage ext0 m1 False] \<and>
              length (filter (\<lambda>m. case messageTimestamp m of Num t \<Rightarrow> 1700000000 - 1 * 86400 \<le> t
                                    | NumNull \<Rightarrow> 1700000000 - 1 * 86400 \<le> (0::int)
                                    | NumUndefined \<Rightarrow> False) [nowMsg, oldMsg]) = 1"
    by auto
  from sc h4 have "msgs = [formatMessage ext0 nowMsg False] \<and>
              length (filter (\<lambda>m. case messageTimestamp m of Num t \<Rightarrow> 1700000000 - 1 * 86400 \<le> t
                                    | NumNull \<Rightarrow> 1700000000 - 1 * 86400 \<le> (0::int)
                                    | NumUndefined \<Rightarrow> False) [nowMsg, oldMsg]) = 1"
    by blast
  with e h1 h2 n1 n2 show ?thesis by simp
qed

text \<open>
  Counterexample to C8 as stated, on a log that holds a message of time 1000 and then
  one of time 950: with a limit of 0 the page holds both messages, not none; with a
  limit of 1 it holds the message of time 950, which is the last stored but not the
  most recent.
\<close>

theorem history_window_counterexample:
  "historyIds (fst (on_get_history ext0 (historyWorld [lateMsg, earlyMsg]) ''acc_1''
       ''5511999@s.whatsapp.net'' 1000 (Some 1) (Some 0))) = [([''E1'', ''L1''], 2)] \<and>
   historyIds (fst (on_get_history ext0 (historyWorld [lateMsg, earlyMsg]) ''acc_1''
       ''5511999@s.whatsapp.net'' 1000 (Some 1) (Some 1))) = [([''E1''], 2)]"
  by code_simp

section \<open>Properties of the chat-list projection\<close>

lemma map_has_get: "map_has m k = (map_get m k \<noteq> None)"
  by (simp add: map_has_def map_get_def)

lemma getProfilePicture_avatar: "fst (getProfilePicture a jid) = avatarOf a jid"
  by (auto simp: getProfilePicture_def avatarOf_def map_has_get split: option.splits)

lemma getProfilePicture_pics:
  "profilePics (snd (getProfilePicture a jid)) =
     (if map_has (profilePics a) jid then profilePics a
      else map_set jid (avatarOf a jid) (profilePics a))"
  by (auto simp: getProfilePicture_def avatarOf_def map_has_get split: option.splits)

lemma avatarOf_cong:
  "profilePics a' = profilePics a \<Longrightarrow> sock a' = sock a \<Longrightarrow> avatarOf a' jid = avatarOf a jid"
  by (simp add: avatarOf_def split: option.splits)

lemma getContactInfo_avatar: "snd (fst (getContactInfo a jid)) = avatarOf a jid"
proof -
  let ?a1 = "if truthy (lookupName a jid) then a else snd (fallbackName a jid)"
  have "snd (fst (getContactInfo a jid)) = fst (getProfilePicture ?a1 jid)"
    by (simp add: getContactInfo_def Let_def case_prod_beta)
  also have "\<dots> = avatarOf ?a1 jid" by (rule getProfilePicture_avatar)
  also have "\<dots> = avatarOf a jid" by (rule avatarOf_cong) (simp_all add: fallbackName_frame)
  finally show ?thesis .
qed

lemma getContactInfo_pics:
  "profilePics (snd (getContactInfo a j)) =
     (if map_has (profilePics a) j then profilePics a
      else map_set j (avatarOf a j) (profilePics a))"
proof -
  let ?a1 = "if truthy (lookupName a j) then a else snd (fallbackName a j)"
  have p: "profilePics ?a1 = profilePics a" "sock ?a1 = sock a"
    by (simp_all add: fallbackName_frame)
  have "profilePics (snd (getContactInfo a j)) = profilePics (snd (getProfilePicture ?a1 j))"
    by (simp add: getContactInfo_snd)
  then show ?thesis
    unfolding getProfilePicture_pics avatarOf_cong[OF p] p(1) .
qed

lemma avatarOf_step: "avatarOf (snd (getContactInfo a j)) jid = avatarOf a jid"
proof (cases "map_has (profilePics a) j")
  case True
  then show ?thesis
    by (intro avatarOf_cong) (simp_all add: getContactInfo_pics getContactInfo_frame)
next
  case False
  then have n: "map_get (profilePics a) j = None" by (simp add: map_has_get)
  have pp: "profilePics (snd (getContactInfo a j)) = map_set j (avatarOf a j) (profilePics a)"
    using False by (simp add: getContactInfo_pics)
  show ?thesis
  proof (cases "jid = j")
    case True
    have "avatarOf (snd (getContactInfo a j)) j = avatarOf a j"
      by (simp add: avatarOf_def[of "snd (getContactInfo a j)"] pp map_get_set_same)
    with True show ?thesis by simp
  next
    case False
    then show ?thesis
      by (simp add: avatarOf_def pp map_get_set_other getContactInfo_frame split: option.splits)
  qed
qed

lemma stateAfter_Cons: "stateAfter a (j # js) = stateAfter (snd (getContactInfo a j)) js"
  by (simp add: stateAfter_def)

lemma entryOf_first:
  assumes "hasActivity c"
  shows "entryOf a (c # act) 0
          \<lparr>fc_id = chat_id c, fc_name = fst (fst (getContactInfo a (chat_id c))),
           fc_profilePic = snd (fst (getContactInfo a (chat_id c))),
           fc_lastMessage = lastMessage c,
           fc_timestamp = js_orNum (timestamp c) (conversationTimestamp c),
           fc_unreadCount = numOr0 (unreadCount c)\<rparr>"
  using getContactInfo_name_Some[of a "chat_id c"]
  by (simp add: entryOf_def stateAfter_def getContactInfo_avatar prod_eq_iff)

lemma entryOf_later:
  assumes "entryOf (snd (getContactInfo a (chat_id c))) act i e"
  shows "entryOf a (c # act) (Suc i) e"
  using assms[unfolded entryOf_def avatarOf_step] unfolding entryOf_def
  by (simp (no_asm) add: stateAfter_Cons)

lemma formatChats_entries:
  "e \<in> set (fst (formatChats a cs formatted)) \<Longrightarrow>
   e \<in> set formatted \<or> (\<exists>i. entryOf a (filter hasActivity cs) i e)"
proof (induction cs arbitrary: a formatted)
  case Nil
  then show ?case by simp
next
  case (Cons c cs)
  show ?case
  proof (cases "lastMessage c = None \<and> \<not> truthyNum (conversationTimestamp c)")
    case True
    with Cons.prems have "e \<in> set (fst (formatChats a cs formatted))" by simp
    from Cons.IH[OF this] True show ?thesis by (auto simp: hasActivity_def)
  next
    case False
    then have act: "hasActivity c" by (auto simp: hasActivity_def)
    let ?info = "fst (getContactInfo a (chat_id c))"
    let ?a1 = "snd (getContactInfo a (chat_id c))"
    let ?e = "\<lparr>fc_id = chat_id c, fc_name = fst ?info, fc_profilePic = snd ?info,
               fc_lastMessage = lastMessage c,
               fc_timestamp = js_orNum (timestamp c) (conversationTimestamp c),
               fc_unreadCount = numOr0 (unreadCount c)\<rparr>"
    from Cons.prems False have "e \<in> set (fst (formatChats ?a1 cs (formatted @ [?e])))"
      by (simp add: case_prod_beta)
    from Cons.IH[OF this] consider "e \<in> set formatted" | "e = ?e"
      | "\<exists>i. entryOf ?a1 (filter hasActivity cs) i e"
      by auto
    then show ?thesis
    proof cases
      case 1 then show ?thesis by simp
    next
      case 2
      have "entryOf a (c # filter hasActivity cs) 0 ?e" using act by (rule entryOf_first)
      with 2 act show ?thesis by auto
    next
      case 3
      then obtain i where "entryOf ?a1 (filter hasActivity cs) i e" by blast
      then have "entryOf a (c # filter hasActivity cs) (Suc i) e" by (rule entryOf_later)
      with act show ?thesis by auto
    qed
  qed
qed

lemma lookupName_cong:
  assumes "contacts a' = contacts a" "pushNames a' = pushNames a" "sock a' = sock a"
  shows "lookupName a' jid = lookupName a jid"
  unfolding lookupName_def assms ..

lemma fallbackName_fst_cong: "sock a' = sock a \<Longrightarrow> fst (fallbackName a' jid) = fst (fallbackName a jid)"
  by (simp add: fallbackName_def split: option.splits)

lemma getContactInfo_name_cong:
  assumes "contacts a' = contacts a" "pushNames a' = pushNames a" "sock a' = sock a"
  shows "fst (fst (getContactInfo a' jid)) = fst (fst (getContactInfo a jid))"
  unfolding getContactInfo_name lookupName_cong[OF assms] fallbackName_fst_cong[OF assms(3)] ..

lemma getContactInfo_contacts_plain:
  "\<not> endsWith jid ''@g.us'' \<Longrightarrow> contacts (snd (getContactInfo a jid)) = contacts a"
  by (simp add: getContactInfo_snd getProfilePicture_frame fallbackName_def)

lemma stateAfter_frame:
  "pushNames (stateAfter a js) = pushNames a" "sock (stateAfter a js) = sock a"
  "chats (stateAfter a js) = chats a"
  by (induction js arbitrary: a) (simp_all add: stateAfter_def getContactInfo_frame)

lemma stateAfter_avatar: "avatarOf (stateAfter a js) jid = avatarOf a jid"
  by (induction js arbitrary: a) (simp_all add: stateAfter_def avatarOf_step)

lemma stateAfter_contacts_plain:
  "\<forall>j\<in>set js. \<not> endsWith j ''@g.us'' \<Longrightarrow> contacts (stateAfter a js) = contacts a"
  by (induction js arbitrary: a) (simp_all add: stateAfter_def getContactInfo_contacts_plain)

lemma entryOf_initial:
  assumes "entryOf a act i e" "\<forall>c\<in>set act. \<not> endsWith (chat_id c) ''@g.us''"
  shows "(fc_name e, fc_profilePic e) = fst (getContactInfo a (chat_id (act ! i)))"
proof -
  let ?s = "stateAfter a (map chat_id (take i act))"
  let ?j = "chat_id (act ! i)"
  have "\<forall>j\<in>set (map chat_id (take i act)). \<not> endsWith j ''@g.us''"
    using assms(2) by (auto dest: in_set_takeD)
  then have c: "contacts ?s = contacts a" by (rule stateAfter_contacts_plain)
  have n: "fst (fst (getContactInfo ?s ?j)) = fst (fst (getContactInfo a ?j))"
    using c by (intro getContactInfo_name_cong) (simp_all add: stateAfter_frame)
  have p: "snd (fst (getContactInfo ?s ?j)) = snd (fst (getContactInfo a ?j))"
    by (simp add: getContactInfo_avatar stateAfter_avatar)
  have "(fc_name e, fc_profilePic e) = fst (getContactInfo ?s ?j)"
    using assms(1) unfolding entryOf_def by (elim conjE)
  with n p show ?thesis by (simp add: prod_eq_iff)
qed

lemma formatChats_length:
  "length (fst (formatChats a cs formatted)) = length formatted + length (filter hasActivity cs)"
  by (induction cs arbitrary: a formatted) (auto simp: hasActivity_def case_prod_beta)

lemma getFormattedChats_fst:
  "fst (getFormattedChats a) =
     take 50 (sort_key (\<lambda>c. - sortKey c) (fst (formatChats a (map_values (chats a)) [])))"
  by (simp add: getFormattedChats_def Let_def case_prod_beta)

lemma getFormattedChats_sorted:
  "sorted_wrt (\<lambda>e e'. numOr0 (fc_timestamp e') \<le> numOr0 (fc_timestamp e)) (fst (getFormattedChats a))"
proof -
  let ?xs = "sort_key (\<lambda>c. - sortKey c) (fst (formatChats a (map_values (chats a)) []))"
  have "sorted (map (\<lambda>c. - sortKey c) ?xs)" by (rule sorted_sort_key)
  then have "sorted_wrt (\<lambda>e e'. - sortKey e \<le> - sortKey e') ?xs" by (simp add: sorted_map)
  then have "sorted_wrt (\<lambda>e e'. numOr0 (fc_timestamp e') \<le> numOr0 (fc_timestamp e)) ?xs"
    by (simp add: sortKey_def)
  then show ?thesis unfolding getFormattedChats_fst by (rule sorted_wrt_take)
qed

text \<open>
  Claim C7. For every account state \<open>getFormattedChats\<close> returns at most 50 entries
  (as many as there are chats with activity, when these are fewer), sorted
  non-increasing by timestamp (a missing timestamp counts as 0, as in the comparator).
  Every entry is the entry of a chat of the store that has a last message or a
  conversation timestamp: it carries that chat's id, last message, timestamp and unread
  count, its name and picture are those \<open>getContactInfo\<close> returns for the chat's id
  in the state the loop has reached, the name is a string, and the picture is the one
  the ProfilePictureCache answers in the initial state (the cached value, else the
  gateway's, else \<open>null\<close>). When no chat with activity is a group, the name and picture
  are those \<open>getContactInfo\<close> returns in the initial state.
\<close>

theorem list_projection:
  "length (fst (getFormattedChats a)) \<le> 50 \<and>
   length (fst (getFormattedChats a)) = min 50 (length (filter hasActivity (map_values (chats a)))) \<and>
   sorted_wrt (\<lambda>e e'. numOr0 (fc_timestamp e') \<le> numOr0 (fc_timestamp e)) (fst (getFormattedChats a)) \<and>
   (\<forall>e\<in>set (fst (getFormattedChats a)).
       \<exists>i. entryOf a (filter hasActivity (map_values (chats a))) i e \<and>
           filter hasActivity (map_values (chats a)) ! i \<in> set (map_values (chats a)) \<and>
           hasActivity (filter hasActivity (map_values (chats a)) ! i)) \<and>
   ((\<forall>c\<in>set (filter hasActivity (map_values (chats a))). \<not> endsWith (chat_id c) ''@g.us'') \<longrightarrow>
      (\<forall>e\<in>set (fst (getFormattedChats a)).
          \<exists>c\<in>set (map_values (chats a)). hasActivity c \<and> fc_id e = chat_id c \<and>
             (fc_name e, fc_profilePic e) = fst (getContactInfo a (chat_id c))))"
proof -
  let ?act = "filter hasActivity (map_values (chats a))"
  have l: "length (fst (getFormattedChats a)) = min 50 (length ?act)"
    by (simp add: getFormattedChats_fst formatChats_length)
  then have l50: "length (fst (getFormattedChats a)) \<le> 50" by simp
  have so: "sorted_wrt (\<lambda>e e'. numOr0 (fc_timestamp e') \<le> numOr0 (fc_timestamp e)) (fst (getFormattedChats a))"
    by (rule getFormattedChats_sorted)
  have en: "\<And>e. e \<in> set (fst (getFormattedChats a)) \<Longrightarrow> \<exists>i. entryOf a ?act i e"
  proof -
    fix e assume "e \<in> set (fst (getFormattedChats a))"
    then have "e \<in> set (fst (formatChats a (map_values (chats a)) []))"
      unfolding getFormattedChats_fst by (auto dest: in_set_takeD)
    from formatChats_entries[OF this] show "\<exists>i. entryOf a ?act i e" by simp
  qed
  have mem: "\<And>i. i < length ?act \<Longrightarrow> ?act ! i \<in> set (map_values (chats a)) \<and> hasActivity (?act ! i)"
  proof -
    fix i assume "i < length ?act"
    then have "?act ! i \<in> set ?act" by (rule nth_mem)
    then show "?act ! i \<in> set (map_values (chats a)) \<and> hasActivity (?act ! i)" by simp
  qed
  have e1: "\<forall>e\<in>set (fst (getFormattedChats a)).
       \<exists>i. entryOf a ?act i e \<and> ?act ! i \<in> set (map_values (chats a)) \<and> hasActivity (?act ! i)"
  proof
    fix e assume "e \<in> set (fst (getFormattedChats a))"
    from en[OF this] obtain i where i: "entryOf a ?act i e" by blast
    then have "i < length ?act" by (simp add: entryOf_def)
    from mem[OF this] i
    show "\<exists>i. entryOf a ?act i e \<and> ?act ! i \<in> set (map_values (chats a)) \<and> hasActivity (?act ! i)"
      by blast
  qed
  have e2: "(\<forall>c\<in>set ?act. \<not> endsWith (chat_id c) ''@g.us'') \<longrightarrow>
      (\<forall>e\<in>set (fst (getFormattedChats a)).
          \<exists>c\<in>set (map_values (chats a)). hasActivity c \<and> fc_id e = chat_id c \<and>
             (fc_name e, fc_profilePic e) = fst (getContactInfo a (chat_id c)))"
  proof (intro impI ballI)
    fix e
    assume ng: "\<forall>c\<in>set ?act. \<not> endsWith (chat_id c) ''@g.us''"
      and "e \<in> set (fst (getFormattedChats a))"
    from en[OF this(2)] obtain i where i: "entryOf a ?act i e" by blast
    then have il: "i < length ?act" and id: "fc_id e = chat_id (?act ! i)"
      by (simp_all add: entryOf_def)
    from entryOf_initial[OF i ng] mem[OF il] id
    show "\<exists>c\<in>set (map_values (chats a)). hasActivity c \<and> fc_id e = chat_id c \<and>
             (fc_name e, fc_profilePic e) = fst (getContactInfo a (chat_id c))"
      by blast
  qed
  from l50 l so e1 e2 show ?thesis by (intro conjI)
qed

text \<open>
  Witness for C7: after one inbound live message under a gateway that has pictures the
  projection is the one entry of that chat, named \<open>Ana\<close>, with the gateway's picture;
  with a gateway whose picture call throws and an empty cache the picture is \<open>null\<close>.
\<close>

theorem list_projection_witness:
  "fst (getFormattedChats afterInbound) = [anaPicEntry] \<and>
   map chat_id (filter hasActivity (map_values (chats afterInbound))) = [''5511999@s.whatsapp.net''] \<and>
   (\<exists>i. entryOf afterInbound (filter hasActivity (map_values (chats afterInbound))) i anaPicEntry) \<and>
   (fc_name anaPicEntry, fc_profilePic anaPicEntry) =
      fst (getContactInfo afterInbound ''5511999@s.whatsapp.net'') \<and>
   fst (getFormattedChats (afterInbound\<lparr>sock := Some gw0, profilePics := []\<rparr>)) = [anaEntry]"
proof -
  let ?a = "afterInbound"
  let ?act = "filter hasActivity (map_values (chats ?a))"
  have e: "fst (getFormattedChats ?a) = [anaPicEntry]" by code_simp
  have ids: "map chat_id ?act = [''5511999@s.whatsapp.net'']" by code_simp
  have ng: "\<forall>c\<in>set ?act. \<not> endsWith (chat_id c) ''@g.us''" by code_simp
  have e0: "fst (getFormattedChats (afterInbound\<lparr>sock := Some gw0, profilePics := []\<rparr>)) = [anaEntry]"
    by code_simp
  from list_projection[of ?a]
  have 1: "\<forall>e\<in>set (fst (getFormattedChats ?a)).
       \<exists>i. entryOf ?a ?act i e \<and> ?act ! i \<in> set (map_values (chats ?a)) \<and> hasActivity (?act ! i)"
    by (elim conjE)
  from list_projection[of ?a]
  have 2: "(\<forall>c\<in>set ?act. \<not> endsWith (chat_id c) ''@g.us'') \<longrightarrow>
      (\<forall>e\<in>set (fst (getFormattedChats ?a)).
          \<exists>c\<in>set (map_values (chats ?a)). hasActivity c \<and> fc_id e = chat_id c \<and>
             (fc_name e, fc_profilePic e) = fst (getContactInfo ?a (chat_id c)))"
    by (elim conjE)
  from 1 e have w1: "\<exists>i. entryOf ?a ?act i anaPicEntry" by auto
  from 2 ng have "\<forall>e\<in>set (fst (getFormattedChats ?a)).
          \<exists>c\<in>set (map_values (chats ?a)). hasActivity c \<and> fc_id e = chat_id c \<and>
             (fc_name e, fc_profilePic e) = fst (getContactInfo ?a (chat_id c))"
    by (rule mp)
  then have "\<exists>c\<in>set (map_values (chats ?a)). hasActivity c \<and> fc_id anaPicEntry = chat_id c \<and>
             (fc_name anaPicEntry, fc_profilePic anaPicEntry) = fst (getContactInfo ?a (chat_id c))"
    unfolding e by simp
  then obtain c where "c \<in> set (map_values (chats ?a))" and c0: "hasActivity c \<and> fc_id anaPicEntry = chat_id c \<and>
             (fc_name anaPicEntry, fc_profilePic anaPicEntry) = fst (getContactInfo ?a (chat_id c))" ..
  from c0 have c1: "fc_id anaPicEntry = chat_id c" by (elim conjE)
  from c0 have c2: "(fc_name anaPicEntry, fc_profilePic anaPicEntry) = fst (getContactInfo ?a (chat_id c))"
    by (elim conjE)
  have "fc_id anaPicEntry = ''5511999@s.whatsapp.net''" by code_simp
  with c1 have "chat_id c = ''5511999@s.whatsapp.net''" by simp
  with c2 have w2: "(fc_name anaPicEntry, fc_profilePic anaPicEntry) =
      fst (getContactInfo ?a ''5511999@s.whatsapp.net'')" by simp
  from e ids w1 w2 e0 show ?thesis by (intro conjI)
qed

section \<open>Properties of the EventReconciler broadcasts\<close>

lemma broadcastChats_fst:
  "fst (broadcastChats a) = [(Io, Chats_update (acc_id a) (fst (getFormattedChats a)))]"
  by (simp add: broadcastChats_def case_prod_beta)

lemma chatsUpdates_broadcast: "chatsUpdates (fst (broadcastChats a)) = 1"
  by (simp add: broadcastChats_fst chatsUpdates_def isChatsUpdate_def)

lemma chatsUpdates_append: "chatsUpdates (es @ es') = chatsUpdates es + chatsUpdates es'"
  by (simp add: chatsUpdates_def)

lemma upsertContact_conn: "connectionState (upsertContact a c) = connectionState a"
  by (simp add: upsertContact_def Let_def split: option.splits)

lemma updateContact_conn: "connectionState (updateContact a c) = connectionState a"
  by (simp add: updateContact_def Let_def)

lemma foldl_upsertContact_conn: "connectionState (foldl upsertContact a cs) = connectionState a"
  by (induction cs arbitrary: a) (simp_all add: upsertContact_conn)

lemma foldl_updateContact_conn: "connectionState (foldl updateContact a cs) = connectionState a"
  by (induction cs arbitrary: a) (simp_all add: updateContact_conn)

lemma updateChatInList_count: "chatsUpdates (fst (updateChatInList x a jid msg)) = 1"
  by (simp add: updateChatInList_def Let_def chatsUpdates_broadcast)

lemma upsertMessage_count:
  "chatsUpdates (fst (upsertMessage x ty st msg)) =
     chatsUpdates (fst st) + (if \<not> fromMe msg \<and> ty = Notify then 1 else 0)"
proof (cases "\<not> fromMe msg \<and> ty = Notify")
  case False
  then show ?thesis by (auto simp: upsertMessage_def Let_def)
next
  case True
  let ?a2 = "appendMessage (learnPushName (snd st) msg) msg"
  let ?a3 = "snd (getContactInfo ?a2 (remoteJid msg))"
  let ?info = "fst (getContactInfo ?a2 (remoteJid msg))"
  have "fst (upsertMessage x ty st msg) =
          fst st @ (Io, New_message (acc_id ?a2) (remoteJid msg) (formatMessage x msg True)
                          (fst ?info) (snd ?info))
                 # fst (updateChatInList x ?a3 (remoteJid msg) msg)"
    using True by (simp add: upsertMessage_def Let_def case_prod_beta)
  then have "chatsUpdates (fst (upsertMessage x ty st msg)) =
          chatsUpdates (fst st) + chatsUpdates (fst (updateChatInList x ?a3 (remoteJid msg) msg))"
    by (simp add: chatsUpdates_def isChatsUpdate_def)
  then show ?thesis using True by (simp add: updateChatInList_count)
qed

lemma foldl_upsertMessage_count:
  "chatsUpdates (fst (foldl (upsertMessage x ty) st msgs)) =
     chatsUpdates (fst st) + (if ty = Notify then length (filter (\<lambda>m. \<not> fromMe m) msgs) else 0)"
  by (induction msgs arbitrary: st) (simp_all add: upsertMessage_count)

text \<open>
  Claim C1, as the code has it. A chat batch upsert, a chat incremental update and a
  bulk history sync each emit exactly one event, the chat-list projection recomputed
  after the whole batch. A contact batch upsert or update emits that broadcast once
  when the account is connected and not at all otherwise. A live message batch emits
  the broadcast from \<open>updateChatInList\<close>, once for every inbound message of a batch of
  type \<open>notify\<close> and never for another batch.
\<close>

theorem broadcasts_per_batch:
  "fst (on_chats_upsert a newChats)
     = [(Io, Chats_update (acc_id a)
              (fst (getFormattedChats (a\<lparr>chats := foldl (\<lambda>m c. map_set (chat_id c) c m) (chats a) newChats\<rparr>))))] \<and>
   fst (on_chats_update a updates)
     = [(Io, Chats_update (acc_id a)
              (fst (getFormattedChats (a\<lparr>chats := foldl applyChatUpdate (chats a) updates\<rparr>))))] \<and>
   fst (on_history_set a syncedChats syncedMessages)
     = [(Io, Chats_update (acc_id (foldl historyMessage (foldl historyChat a syncedChats) syncedMessages))
              (fst (getFormattedChats (foldl historyMessage (foldl historyChat a syncedChats) syncedMessages))))] \<and>
   chatsUpdates (fst (on_chats_upsert a newChats)) = 1 \<and>
   chatsUpdates (fst (on_chats_update a updates)) = 1 \<and>
   chatsUpdates (fst (on_history_set a syncedChats syncedMessages)) = 1 \<and>
   chatsUpdates (fst (on_contacts_upsert a newContacts)) = (if connectionState a = Connected then 1 else 0) \<and>
   chatsUpdates (fst (on_contacts_update a contactUpdates)) = (if connectionState a = Connected then 1 else 0) \<and>
   chatsUpdates (fst (on_messages_upsert x a newMessages ty)) =
     (if ty = Notify then length (filter (\<lambda>m. \<not> fromMe m) newMessages) else 0)"
proof (intro conjI)
  show "fst (on_chats_upsert a newChats)
     = [(Io, Chats_update (acc_id a)
              (fst (getFormattedChats (a\<lparr>chats := foldl (\<lambda>m c. map_set (chat_id c) c m) (chats a) newChats\<rparr>))))]"
    by (simp add: on_chats_upsert_def broadcastChats_fst)
  show "fst (on_chats_update a updates)
     = [(Io, Chats_update (acc_id a)
              (fst (getFormattedChats (a\<lparr>chats := foldl applyChatUpdate (chats a) updates\<rparr>))))]"
    by (simp add: on_chats_update_def broadcastChats_fst)
  show "fst (on_history_set a syncedChats syncedMessages)
     = [(Io, Chats_update (acc_id (foldl historyMessage (foldl historyChat a syncedChats) syncedMessages))
              (fst (getFormattedChats (foldl historyMessage (foldl historyChat a syncedChats) syncedMessages))))]"
    by (simp add: on_history_set_def broadcastChats_fst)
  show "chatsUpdates (fst (on_chats_upsert a newChats)) = 1"
    by (simp add: on_chats_upsert_def chatsUpdates_broadcast)
  show "chatsUpdates (fst (on_chats_update a updates)) = 1"
    by (simp add: on_chats_update_def chatsUpdates_broadcast)
  show "chatsUpdates (fst (on_history_set a syncedChats syncedMessages)) = 1"
    by (simp add: on_history_set_def chatsUpdates_broadcast)
  show "chatsUpdates (fst (on_contacts_upsert a newContacts)) = (if connectionState a = Connected then 1 else 0)"
    by (simp add: on_contacts_upsert_def Let_def foldl_upsertContact_conn chatsUpdates_broadcast)
       (simp add: chatsUpdates_def)
  show "chatsUpdates (fst (on_contacts_update a contactUpdates)) = (if connectionState a = Connected then 1 else 0)"
    by (simp add: on_contacts_update_def Let_def foldl_updateContact_conn chatsUpdates_broadcast)
       (simp add: chatsUpdates_def)
  show "chatsUpdates (fst (on_messages_upsert x a newMessages ty)) =
     (if ty = Notify then length (filter (\<lambda>m. \<not> fromMe m) newMessages) else 0)"
    by (simp add: on_messages_upsert_def foldl_upsertMessage_count) (simp add: chatsUpdates_def)
qed

text \<open>
  Witness for C1: a \<open>notify\<close> batch of one inbound and one outbound message, and a
  contact batch of two records on a connected account, emit one broadcast each.
\<close>

theorem broadcasts_per_batch_witness:
  "chatsUpdates (fst (on_messages_upsert ext0 acc1 [inboundMsg, sentMsg] Notify)) = 1 \<and>
   connectionState acc1 = Connected \<and>
   chatsUpdates (fst (on_contacts_upsert acc1 [anaContact, aliceContact])) = 1"
proof -
  have "length (filter (\<lambda>m. \<not> fromMe m) [inboundMsg, sentMsg]) = 1"
    by (simp add: inboundMsg_def sentMsg_def)
  moreover have "connectionState acc1 = Connected" by (simp add: acc1_def acc0_def)
  ultimately show ?thesis
    using broadcasts_per_batch[of acc1 "[]" "[]" "[]" "[]" "[anaContact, aliceContact]" "[]" ext0
        "[inboundMsg, sentMsg]" Notify]
    by simp
qed

text \<open>
  Counterexample to C1 as stated: a \<open>notify\<close> batch of two inbound messages emits
  two chat-list broadcasts, one per message; an \<open>append\<close> batch and a contact batch on
  a disconnected account emit none.
\<close>

theorem broadcasts_per_batch_counterexample:
  "chatsUpdates (fst (on_messages_upsert ext0 acc1 [inboundMsg, inboundMsg2] Notify)) = 2 \<and>
   chatsUpdates (fst (on_messages_upsert ext0 acc1 [sentMsg] Append)) = 0 \<and>
   chatsUpdates (fst (on_contacts_upsert (acc1\<lparr>connectionState := Disconnected\<rparr>) [anaContact])) = 0"
  by code_simp

end
